theory Spec2Isabelle
  imports Complex_Main "HOL-Library.Sublist"
begin

section \<open>JavaScript values used by the services\<close>

text \<open>
  Strings are \<^typ>\<open>string\<close>, a list of code units; \<open>s.length\<close> is \<^const>\<open>length\<close>.
  A value that may be \<open>null\<close> or \<open>undefined\<close> is an \<^typ>\<open>'a option\<close>. JavaScript
  numbers that hold counts are \<^typ>\<open>nat\<close>; the arithmetic on them is that of IEEE
  doubles, given below. \<open>String.prototype.toLowerCase\<close> belongs to the JavaScript
  runtime and is not defined here: every function that calls it takes it as a
  parameter, so that what is proved holds for the lower-casing of the runtime.
\<close>

datatype error = Error string

definition truthy_str :: "string option \<Rightarrow> bool" where
  "truthy_str v = (case v of None \<Rightarrow> False | Some s \<Rightarrow> s \<noteq> [])"

definition truthy_num :: "nat option \<Rightarrow> bool" where
  "truthy_num v = (case v of None \<Rightarrow> False | Some n \<Rightarrow> n \<noteq> 0)"

text \<open>\<open>a || null\<close> on an optional string: the empty string and the absent value give \<open>null\<close>.\<close>

definition str_or_null :: "string option \<Rightarrow> string option" where
  "str_or_null v = (if truthy_str v then v else None)"

definition num_or_null :: "nat option \<Rightarrow> nat option" where
  "num_or_null v = (if truthy_num v then v else None)"

text \<open>
  On a string of ASCII characters, \<open>toLowerCase\<close> replaces the letters \<open>A\<close> to \<open>Z\<close>
  by \<open>a\<close> to \<open>z\<close> and keeps every other character; \<open>asciiLowerCase\<close> does that, and
  serves as the lower-casing in the examples, whose strings are ASCII.
\<close>

definition asciiLowerChar :: "char \<Rightarrow> char" where
  "asciiLowerChar c =
     (let n = (of_char c :: nat) in if 65 \<le> n \<and> n \<le> 90 then char_of (n + 32) else c)"

definition asciiLowerCase :: "string \<Rightarrow> string" where
  "asciiLowerCase s = map asciiLowerChar s"

definition ascii_only :: "string \<Rightarrow> bool" where
  "ascii_only s = list_all (\<lambda>c. (of_char c :: nat) < 128) s"

text \<open>A lower-casing function that does on ASCII strings what \<open>toLowerCase\<close> does there.\<close>

definition lowers_ascii :: "(string \<Rightarrow> string) \<Rightarrow> bool" where
  "lowers_ascii lc = (\<forall>s. ascii_only s \<longrightarrow> lc s = asciiLowerCase s)"

text \<open>\<open>s.includes(t)\<close>: \<open>t\<close> occurs in \<open>s\<close> as a contiguous run of characters.\<close>

definition str_includes :: "string \<Rightarrow> string \<Rightarrow> bool" where
  "str_includes s t = sublist t s"

subsection \<open>Numbers\<close>

text \<open>
  A finite IEEE double is a rational number. \<open>to_double q\<close> is the double nearest to
  \<open>q\<close>, a tie going to the even significand of 53 bits: with \<open>2 ^ e \<le> |q| < 2 ^ (e + 1)\<close>
  (\<open>e\<close> is \<open>binade q\<close>), the doubles around \<open>q\<close> are the multiples of \<open>2 ^ (e - 52)\<close>. An
  arithmetic operation returns the double nearest to the exact result, and adding zero
  returns the other operand. Overflow to \<open>Infinity\<close> and the coarser spacing of the
  subnormal numbers are left out; \<open>NaN\<close> is no value of the type.
\<close>

function bitlen :: "int \<Rightarrow> nat" where
  "bitlen n = (if n \<le> 0 then 0 else Suc (bitlen (n div 2)))"
  by auto
termination
  by (relation "measure nat") auto

declare bitlen.simps [simp del]

definition pow2 :: "int \<Rightarrow> rat" where
  "pow2 e = (if e \<ge> 0 then 2 ^ nat e else 1 / 2 ^ nat (- e))"

definition binade :: "rat \<Rightarrow> int" where
  "binade q =
     (case quotient_of \<bar>q\<bar> of
        (a, b) \<Rightarrow>
          (let e = int (bitlen a) - int (bitlen b)
           in if pow2 e \<le> \<bar>q\<bar> then e else e - 1))"

definition round_half_even :: "rat \<Rightarrow> int" where
  "round_half_even x =
     (let f = \<lfloor>x\<rfloor>; d = x - of_int f
      in if d < 1 / 2 then f else if d > 1 / 2 then f + 1 else if even f then f else f + 1)"

definition to_double :: "rat \<Rightarrow> rat" where
  "to_double q =
     (if q = 0 then 0
      else (let ulp = pow2 (binade q - 52) in of_int (round_half_even (q / ulp)) * ulp))"

definition js_add :: "rat \<Rightarrow> rat \<Rightarrow> rat" where
  "js_add x y = (if y = 0 then x else to_double (x + y))"

definition js_sub :: "rat \<Rightarrow> rat \<Rightarrow> rat" where
  "js_sub x y = to_double (x - y)"

definition js_mul :: "rat \<Rightarrow> rat \<Rightarrow> rat" where
  "js_mul x y = to_double (x * y)"

definition js_div :: "rat \<Rightarrow> rat \<Rightarrow> rat" where
  "js_div x y = to_double (x / y)"

text \<open>A count as a JavaScript number, and \<open>parseFloat\<close> of a decimal string of value \<open>q\<close>.\<close>

definition js_number :: "nat \<Rightarrow> rat" where
  "js_number n = to_double (rat_of_nat n)"

definition parseFloat :: "rat \<Rightarrow> rat" where
  "parseFloat q = to_double q"

text \<open>
  \<open>Math.round\<close> returns the integer nearest to its argument, a tie going up; no
  rounding error is involved.
\<close>

definition Math_round :: "rat \<Rightarrow> int" where
  "Math_round x = \<lfloor>x + 1 / 2\<rfloor>"


section \<open>SEO scraper: the score of a parsed page (seoService)\<close>

record headings =
  h1 :: "string list"
  h2 :: "string list"
  h3 :: "string list"

record SEOAnalysisResult =
  seo_score :: nat
  metaTitle :: "string option"
  metaDescription :: "string option"
  headings :: headings
  wordCount :: nat
  topKeywords :: "string list"
  issues :: "string list"

definition calculateSEOScore :: "SEOAnalysisResult \<Rightarrow> nat" where
  "calculateSEOScore result =
     (let score = 0;
          \<comment> \<open>Title (20 points)\<close>
          score =
            (if truthy_str (metaTitle result) then
               (let score = score + 10; n = length (the (metaTitle result)) in
                if n \<ge> 30 \<and> n \<le> 60 then score + 10
                else if n > 0 then score + 5 else score)
             else score);
          \<comment> \<open>Meta description (20 points)\<close>
          score =
            (if truthy_str (metaDescription result) then
               (let score = score + 10; n = length (the (metaDescription result)) in
                if n \<ge> 120 \<and> n \<le> 160 then score + 10
                else if n > 0 then score + 5 else score)
             else score);
          \<comment> \<open>H1 heading (15 points)\<close>
          score =
            (if length (h1 (headings result)) = 1 then score + 15
             else if length (h1 (headings result)) > 0 then score + 8 else score);
          \<comment> \<open>H2 headings (15 points)\<close>
          score =
            (if length (h2 (headings result)) \<ge> 2 then score + 15
             else if length (h2 (headings result)) > 0 then score + 8 else score);
          \<comment> \<open>Content length (20 points)\<close>
          score =
            (if wordCount result \<ge> 1000 then score + 20
             else if wordCount result \<ge> 500 then score + 15
             else if wordCount result \<ge> 300 then score + 10
             else if wordCount result > 0 then score + 5 else score);
          \<comment> \<open>Keywords diversity (10 points)\<close>
          score =
            (if length (topKeywords result) \<ge> 8 then score + 10
             else if length (topKeywords result) \<ge> 5 then score + 7
             else if length (topKeywords result) > 0 then score + 3 else score)
      in min 100 score)"

text \<open>
  The six checks as the specification words them: the points each check is worth, as a
  function of the quantity it looks at.
\<close>

definition wellSizedPoints :: "nat \<Rightarrow> nat \<Rightarrow> string option \<Rightarrow> nat" where
  "wellSizedPoints lo hi v =
     (case v of None \<Rightarrow> 0
      | Some s \<Rightarrow> if s = [] then 0 else if lo \<le> length s \<and> length s \<le> hi then 20 else 15)"

definition h1Points :: "nat \<Rightarrow> nat" where
  "h1Points n = (if n = 1 then 15 else if n = 0 then 0 else 8)"

definition h2Points :: "nat \<Rightarrow> nat" where
  "h2Points n = (if n \<ge> 2 then 15 else if n = 0 then 0 else 8)"

definition contentPoints :: "nat \<Rightarrow> nat" where
  "contentPoints w =
     (if w \<ge> 1000 then 20 else if w \<ge> 500 then 15 else if w \<ge> 300 then 10
      else if w = 0 then 0 else 5)"

definition keywordPoints :: "nat \<Rightarrow> nat" where
  "keywordPoints k = (if k \<ge> 8 then 10 else if k \<ge> 5 then 7 else if k = 0 then 0 else 3)"

definition lorem_page :: SEOAnalysisResult where
  "lorem_page =
     \<lparr> seo_score = 0,
       metaTitle = Some (replicate 45 CHR ''t''),
       metaDescription = Some (replicate 140 CHR ''d''),
       headings = \<lparr> h1 = [''Lorem''], h2 = [''a'', ''b'', ''c''], h3 = [] \<rparr>,
       wordCount = 1200,
       topKeywords = [''lorem''],
       issues = [] \<rparr>"

definition diverse_page :: SEOAnalysisResult where
  "diverse_page =
     lorem_page \<lparr> topKeywords :=
       [''coffee'', ''roast'', ''beans'', ''espresso'', ''latte'', ''bakery'', ''fresh'', ''local''] \<rparr>"



section \<open>Competitor records and the competitive score (analysisService)\<close>

type_synonym news = "string \<times> string \<times> string option \<times> string option"

datatype threatLevel = Low | Medium | High

text \<open>
  The object \<open>competitorData\<close> built for each discovered competitor, with the columns of
  the \<open>competitors\<close> table. \<open>c_googleRating\<close> holds the value of the decimal string
  that the source keeps (\<open>comp.rating?.toString() || null\<close>): the string of a number
  is never empty, so it is truthy exactly when the rating is present, and \<open>parseFloat\<close>
  reads it as a double.
\<close>

record competitor =
  c_analysisId :: nat
  c_name :: string
  c_url :: "string option"
  c_address :: "string option"
  c_phone :: "string option"
  c_placeId :: "string option"
  c_googleRating :: "rat option"
  c_googleReviewCount :: "nat option"
  c_businessTypes :: "string list"
  c_seoScore :: "nat option"
  c_metaTitle :: "string option"
  c_metaDescription :: "string option"
  c_headingStructure :: "headings option"
  c_contentWordCount :: "nat option"
  c_topKeywords :: "string list option"
  c_employeeCount :: "string option"
  c_fundingInfo :: "string option"
  c_techStack :: "string list option"
  c_recentNews :: "news list option"
  c_competitiveScore :: "int option"
  c_threatLevel :: "threatLevel option"

definition calculateCompetitiveScore :: "competitor \<Rightarrow> SEOAnalysisResult option \<Rightarrow> int" where
  "calculateCompetitiveScore competitor targetSeo =
     (let score = (50 :: rat);
          \<comment> \<open>SEO score comparison\<close>
          score =
            (if truthy_num (c_seoScore competitor)
             then js_add score (min (js_div (js_number (the (c_seoScore competitor))) 2) 25)
             else score);
          \<comment> \<open>Google rating impact\<close>
          score =
            (case c_googleRating competitor of
               Some googleRating \<Rightarrow>
                 (let rating = parseFloat googleRating
                  in js_add score (js_mul (js_sub rating 3) 10))
             | None \<Rightarrow> score);
          \<comment> \<open>Review count impact\<close>
          score =
            (if truthy_num (c_googleReviewCount competitor)
             then js_add score (min (js_div (js_number (the (c_googleReviewCount competitor))) 10) 15)
             else score);
          \<comment> \<open>Website presence\<close>
          score = (if truthy_str (c_url competitor) then js_add score 5 else score)
      in max 0 (min 100 (Math_round score)))"

definition getThreatLevel :: "int \<Rightarrow> threatLevel" where
  "getThreatLevel score = (if score \<ge> 75 then High else if score \<ge> 50 then Medium else Low)"

text \<open>
  The formula as the specification writes it, over the four inputs: the base and the four
  contributions, an absent input contributing 0, added from left to right in the
  arithmetic of JavaScript numbers, then rounded and clamped.
\<close>

definition specCompetitiveScore ::
    "nat option \<Rightarrow> rat option \<Rightarrow> nat option \<Rightarrow> bool \<Rightarrow> int" where
  "specCompetitiveScore seoScore googleRating reviewCount hasWebsite =
     max 0 (min 100 (Math_round
       (js_add
         (js_add
           (js_add
             (js_add 50
               (case seoScore of None \<Rightarrow> 0 | Some s \<Rightarrow> min (js_div (js_number s) 2) 25))
             (case googleRating of None \<Rightarrow> 0
              | Some r \<Rightarrow> js_mul (js_sub (parseFloat r) 3) 10))
           (case reviewCount of None \<Rightarrow> 0 | Some n \<Rightarrow> min (js_div (js_number n) 10) 15))
         (if hasWebsite then 5 else 0))))"


section \<open>Competitor discovery (competitorDiscoveryService)\<close>

record DiscoveredCompetitor =
  d_name :: string
  d_placeId :: string
  d_address :: "string option"
  d_phone :: "string option"
  d_website :: "string option"
  d_rating :: "rat option"
  d_reviewCount :: "nat option"
  d_types :: "string list option"
  d_location :: "(rat \<times> rat) option"

text \<open>The answers of \<open>makeRequest\<close>, one type for each endpoint that is called.\<close>

record GeocodeResponse =
  g_status :: string
  g_location :: "(rat \<times> rat) option"

record Place =
  place_name :: string
  place_id :: string
  formatted_address :: "string option"
  place_rating :: "rat option"
  user_ratings_total :: "nat option"
  place_types :: "string list option"
  geometry_location :: "(rat \<times> rat) option"

record TextSearchResponse =
  ts_status :: string
  ts_results :: "Place list option"

record PlaceDetails =
  formatted_phone_number :: "string option"
  website :: "string option"

record DetailsResponse =
  pd_status :: string
  pd_result :: "PlaceDetails option"

record maps_api =
  geocodeRequest :: "string \<Rightarrow> error + GeocodeResponse"
  textSearchRequest :: "string \<Rightarrow> rat \<Rightarrow> rat \<Rightarrow> error + TextSearchResponse"
  detailsRequest :: "string \<Rightarrow> error + DetailsResponse"

definition geocodeLocation :: "maps_api \<Rightarrow> string \<Rightarrow> (rat \<times> rat) option" where
  "geocodeLocation api address =
     (case geocodeRequest api address of
        Inl _ \<Rightarrow> None
      | Inr data \<Rightarrow> if g_status data = ''OK'' \<and> g_location data \<noteq> None then g_location data else None)"

definition getPlaceDetails :: "maps_api \<Rightarrow> string \<Rightarrow> PlaceDetails option" where
  "getPlaceDetails api placeId =
     (case detailsRequest api placeId of
        Inl _ \<Rightarrow> None
      | Inr data \<Rightarrow> if pd_status data = ''OK'' \<and> pd_result data \<noteq> None then pd_result data else None)"

definition extractIndustryFromName :: "(string \<Rightarrow> string) \<Rightarrow> string \<Rightarrow> string" where
  "extractIndustryFromName lc businessName =
     (let keywords =
            [''restaurant'', ''cafe'', ''coffee'', ''bakery'', ''pizza'', ''sushi'',
             ''salon'', ''spa'', ''barber'', ''beauty'',
             ''gym'', ''fitness'', ''yoga'', ''crossfit'',
             ''dental'', ''dentist'', ''clinic'', ''medical'', ''doctor'',
             ''law'', ''attorney'', ''legal'',
             ''accounting'', ''tax'', ''financial'',
             ''auto'', ''car'', ''mechanic'', ''repair'',
             ''plumber'', ''plumbing'', ''hvac'', ''electrical'',
             ''real estate'', ''realty'', ''property'',
             ''marketing'', ''agency'', ''design'',
             ''tech'', ''software'', ''it services'',
             ''media'', ''production'', ''video''];
          nameLower = lc businessName
      in case find (\<lambda>keyword. str_includes nameLower keyword) keywords of
           Some keyword \<Rightarrow> keyword
         | None \<Rightarrow> ''business'')"

definition isLargeDirectory :: "(string \<Rightarrow> string) \<Rightarrow> string \<Rightarrow> bool" where
  "isLargeDirectory lc name =
     (let directories =
            [''yelp'', ''angi'', ''angie's list'', ''thumbtack'', ''homeadvisor'',
             ''yellowpages'', ''yellow pages'', ''bbb'', ''better business bureau'',
             ''google'', ''facebook'', ''linkedin'', ''instagram''];
          nameLower = lc name
      in list_ex (\<lambda>dir. str_includes nameLower dir) directories)"

text \<open>The object pushed for a place that is kept.\<close>

definition toCompetitor :: "maps_api \<Rightarrow> Place \<Rightarrow> DiscoveredCompetitor" where
  "toCompetitor api place =
     (let details = getPlaceDetails api (place_id place) in
      \<lparr> d_name = place_name place,
        d_placeId = place_id place,
        d_address = formatted_address place,
        d_phone = (case details of Some d \<Rightarrow> formatted_phone_number d | None \<Rightarrow> None),
        d_website = (case details of Some d \<Rightarrow> website d | None \<Rightarrow> None),
        d_rating = place_rating place,
        d_reviewCount = user_ratings_total place,
        d_types = place_types place,
        d_location = geometry_location place \<rparr>)"

text \<open>
  The \<open>for\<close> loop of \<open>searchNearbyPlaces\<close> over the places still to visit;
  \<open>competitors\<close> is the array filled so far, \<open>lc\<close> the \<open>toLowerCase\<close> of the runtime.
\<close>

fun collectCompetitors ::
    "(string \<Rightarrow> string) \<Rightarrow> maps_api \<Rightarrow> string \<Rightarrow> Place list \<Rightarrow> DiscoveredCompetitor list
      \<Rightarrow> DiscoveredCompetitor list" where
  "collectCompetitors lc api excludeNameLower [] competitors = competitors"
| "collectCompetitors lc api excludeNameLower (place # rest) competitors =
     \<comment> \<open>Skip the target business itself\<close>
     (if str_includes (lc (place_name place)) excludeNameLower
         \<or> str_includes excludeNameLower (lc (place_name place))
      then collectCompetitors lc api excludeNameLower rest competitors
      \<comment> \<open>Skip large directories and chains that aren't real competitors\<close>
      else if isLargeDirectory lc (place_name place)
      then collectCompetitors lc api excludeNameLower rest competitors
      else
        (let competitors = competitors @ [toCompetitor api place] in
         \<comment> \<open>Limit to top 5 competitors\<close>
         if length competitors \<ge> 5 then competitors
         else collectCompetitors lc api excludeNameLower rest competitors))"

definition searchNearbyPlaces ::
    "(string \<Rightarrow> string) \<Rightarrow> maps_api \<Rightarrow> rat \<Rightarrow> rat \<Rightarrow> string \<Rightarrow> string
      \<Rightarrow> DiscoveredCompetitor list" where
  "searchNearbyPlaces lc api lat lng query excludeBusinessName =
     (case textSearchRequest api query lat lng of
        Inl _ \<Rightarrow> []
      | Inr data \<Rightarrow>
          if ts_status data \<noteq> ''OK'' \<or> ts_results data = None then []
          else collectCompetitors lc api (lc excludeBusinessName) (the (ts_results data)) [])"

definition discoverCompetitors ::
    "(string \<Rightarrow> string) \<Rightarrow> maps_api \<Rightarrow> string \<Rightarrow> string \<Rightarrow> string option
      \<Rightarrow> DiscoveredCompetitor list" where
  "discoverCompetitors lc api businessName location industry =
     (case geocodeLocation api location of
        None \<Rightarrow> []
      | Some (lat, lng) \<Rightarrow>
          (let searchQuery = (if truthy_str industry then the industry
                              else extractIndustryFromName lc businessName)
           in searchNearbyPlaces lc api lat lng searchQuery businessName))"

text \<open>
  The filter as the specification words it: a candidate is a self-match when its name
  and the target's name, both lower-cased by \<open>lc\<close>, contain one another in either
  direction.
\<close>

definition selfMatch :: "(string \<Rightarrow> string) \<Rightarrow> string \<Rightarrow> string \<Rightarrow> bool" where
  "selfMatch lc target candidate =
     (sublist (lc target) (lc candidate) \<or> sublist (lc candidate) (lc target))"

definition qualifies :: "(string \<Rightarrow> string) \<Rightarrow> string \<Rightarrow> Place \<Rightarrow> bool" where
  "qualifies lc target place =
     (\<not> selfMatch lc target (place_name place) \<and> \<not> isLargeDirectory lc (place_name place))"

text \<open>A search that answers three places, for the example of the specification.\<close>

definition example_place :: "string \<Rightarrow> string \<Rightarrow> Place" where
  "example_place name ident =
     \<lparr> place_name = name, place_id = ident, formatted_address = None, place_rating = None,
       user_ratings_total = None, place_types = None, geometry_location = None \<rparr>"

definition example_results :: "Place list" where
  "example_results =
     [example_place ''Joe's Coffee Downtown'' ''p1'',
      example_place ''Yelp Coffee Guide'' ''p2'',
      example_place ''Bean There'' ''p3'']"

definition example_response :: TextSearchResponse where
  "example_response = \<lparr> ts_status = ''OK'', ts_results = Some example_results \<rparr>"

definition example_api :: maps_api where
  "example_api =
     \<lparr> geocodeRequest = (\<lambda>_. Inr \<lparr> g_status = ''OK'', g_location = Some (0, 0) \<rparr>),
       textSearchRequest = (\<lambda>_ _ _. Inr example_response),
       detailsRequest = (\<lambda>_. Inl (Error ''timeout'')) \<rparr>"


section \<open>The record store (db.ts)\<close>

datatype status = Pending | Collecting | Analyzing | Completed | Failed

type_synonym insight = "string \<times> string"
type_synonym recommendation = "string \<times> string \<times> string \<times> string"
type_synonym ad = "string \<times> string \<times> string \<times> string"

text \<open>
  A row of the \<open>analyses\<close> table. The columns \<open>createdAt\<close> and \<open>updatedAt\<close>, which the
  database fills in by itself, are left out; a timestamp is a number.
\<close>

record analysis =
  a_id :: nat
  a_userId :: nat
  a_businessName :: string
  a_businessUrl :: "string option"
  a_businessLocation :: string
  a_industry :: "string option"
  a_status :: status
  a_seoScore :: "nat option"
  a_metaTitle :: "string option"
  a_metaDescription :: "string option"
  a_headingStructure :: "headings option"
  a_contentWordCount :: "nat option"
  a_hasGoogleBusiness :: "nat option"
  a_googleRating :: "rat option"
  a_googleReviewCount :: "nat option"
  a_socialProfiles :: "(string \<times> string) list option"
  a_overallAnalysis :: "string option"
  a_strengths :: "insight list option"
  a_weaknesses :: "insight list option"
  a_opportunities :: "insight list option"
  a_recommendations :: "recommendation list option"
  a_generatedBlogPost :: "string option"
  a_generatedAdCopy :: "ad list option"
  a_completedAt :: "nat option"

text \<open>
  What can go wrong in one call of a \<open>db.ts\<close> function: \<open>getDb()\<close> gives no handle
  (\<open>NoHandle\<close>), or the query is rejected by the driver (\<open>QueryError\<close>).
\<close>

datatype db_fault = NoHandle | QueryError error

datatype log_entry = ConsoleError string error | ConsoleWarn string error

text \<open>Calls to the collaborating services, in the order they are made.\<close>

datatype call =
    CallSEO string
  | CallPresence string string
  | CallDiscover string string "string option"
  | CallEnrich string "string option"
  | CallAIInsights
  | CallBlogPost
  | CallAdCopy

text \<open>
  The state the services act on: the two tables, the console, and three observation
  logs that the code does not keep but an observer of the run sees: \<open>journal\<close> lists
  each row of \<open>analyses\<close> as an \<open>UPDATE\<close> leaves it (oldest first), \<open>calls\<close> the calls
  to collaborators, \<open>dbCalls\<close> counts the calls to \<open>db.ts\<close> queries.
\<close>

record world =
  analyses :: "nat \<rightharpoonup> analysis"
  competitors :: "competitor list"
  nextAnalysisId :: nat
  journal :: "(nat \<times> analysis) list"
  console :: "log_entry list"
  calls :: "call list"
  dbCalls :: nat

text \<open>
  An \<open>async\<close> function is a state transformer that either resolves (\<open>Inr\<close>) or
  rejects (\<open>Inl\<close>); \<open>await\<close> in sequence is \<open>bind_io\<close>, \<open>try/catch\<close> and
  \<open>.catch(handler)\<close> are \<open>catch_io\<close>.
\<close>

type_synonym 'a io = "world \<Rightarrow> (error + 'a) \<times> world"

definition return_io :: "'a \<Rightarrow> 'a io" where
  "return_io x = (\<lambda>w. (Inr x, w))"

definition throw_io :: "error \<Rightarrow> 'a io" where
  "throw_io e = (\<lambda>w. (Inl e, w))"

definition bind_io :: "'a io \<Rightarrow> ('a \<Rightarrow> 'b io) \<Rightarrow> 'b io" where
  "bind_io m f = (\<lambda>w. case m w of (Inl e, w') \<Rightarrow> (Inl e, w') | (Inr x, w') \<Rightarrow> f x w')"

definition catch_io :: "'a io \<Rightarrow> (error \<Rightarrow> 'a io) \<Rightarrow> 'a io" where
  "catch_io m h = (\<lambda>w. case m w of (Inl e, w') \<Rightarrow> h e w' | (Inr x, w') \<Rightarrow> (Inr x, w'))"

definition console_error :: "string \<Rightarrow> error \<Rightarrow> unit io" where
  "console_error msg e = (\<lambda>w. (Inr (), w\<lparr>console := console w @ [ConsoleError msg e]\<rparr>))"

definition console_warn :: "string \<Rightarrow> error \<Rightarrow> unit io" where
  "console_warn msg e = (\<lambda>w. (Inr (), w\<lparr>console := console w @ [ConsoleWarn msg e]\<rparr>))"

text \<open>Awaiting a collaborator: the call is noted, its outcome is the collaborator's.\<close>

definition call_io :: "call \<Rightarrow> error + 'a \<Rightarrow> 'a io" where
  "call_io c outcome = (\<lambda>w. (outcome, w\<lparr>calls := calls w @ [c]\<rparr>))"

text \<open>
  \<open>Promise.all\<close>: every promise runs to its end, the result is the list of values, or
  the first rejection. The promises are run in list order.
\<close>

definition promise_all2 :: "'a io \<Rightarrow> 'b io \<Rightarrow> ('a \<times> 'b) io" where
  "promise_all2 p q =
     (\<lambda>w. case p w of (r1, w1) \<Rightarrow>
        (case q w1 of (r2, w2) \<Rightarrow>
           (case r1 of Inl e \<Rightarrow> (Inl e, w2)
            | Inr x \<Rightarrow> (case r2 of Inl e \<Rightarrow> (Inl e, w2) | Inr y \<Rightarrow> (Inr (x, y), w2)))))"

fun promise_all :: "'a io list \<Rightarrow> 'a list io" where
  "promise_all [] = return_io []"
| "promise_all (p # ps) =
     (\<lambda>w. case p w of (r, w1) \<Rightarrow>
        (case promise_all ps w1 of (rs, w2) \<Rightarrow>
           (case r of Inl e \<Rightarrow> (Inl e, w2)
            | Inr x \<Rightarrow> (case rs of Inl e \<Rightarrow> (Inl e, w2) | Inr xs \<Rightarrow> (Inr (x # xs), w2)))))"


section \<open>Collaborators of the pipeline\<close>

record OnlinePresenceResult =
  p_hasGoogleBusiness :: bool
  p_googleRating :: "rat option"
  p_reviewCount :: "nat option"
  p_socialProfiles :: "(string \<times> string) list"
  p_types :: "string list option"
  p_primaryType :: "string option"

record EnrichmentResult =
  employeeCount :: "string option"
  fundingInfo :: "string option"
  techStack :: "string list option"
  recentNews :: "news list option"

record AIInsightsResult =
  ai_overallAnalysis :: string
  ai_strengths :: "insight list"
  ai_weaknesses :: "insight list"
  ai_opportunities :: "insight list"
  ai_recommendations :: "recommendation list"
  ai_detectedIndustry :: "string option"

text \<open>
  The services the pipeline awaits, given by their outcomes (\<open>findCompetitors\<close> stands
  for the imported \<open>discoverCompetitors\<close>); \<open>dbFault n\<close> is the fault, if any, of the
  \<open>n\<close>-th database call of the run, \<open>now\<close> the value of \<open>new Date()\<close>, \<open>toLowerCase\<close>
  the method of that name of the strings of the runtime.
\<close>

record services =
  analyzeSEO :: "string \<Rightarrow> error + SEOAnalysisResult"
  analyzeOnlinePresence :: "string \<Rightarrow> string \<Rightarrow> error + OnlinePresenceResult"
  findCompetitors :: "string \<Rightarrow> string \<Rightarrow> string option \<Rightarrow> error + DiscoveredCompetitor list"
  enrichCompetitorData :: "string \<Rightarrow> string option \<Rightarrow> error + EnrichmentResult"
  generateAIInsights :: "analysis option \<Rightarrow> competitor list \<Rightarrow> error + AIInsightsResult"
  generateBlogPost :: "analysis option \<Rightarrow> competitor list \<Rightarrow> string list \<Rightarrow> string"
  generateAdCopy :: "analysis option \<Rightarrow> competitor list \<Rightarrow> string list \<Rightarrow> ad list"
  dbFault :: "nat \<Rightarrow> db_fault option"
  now :: nat
  toLowerCase :: "string \<Rightarrow> string"


section \<open>Queries (db.ts)\<close>

definition db_call :: "services \<Rightarrow> (db_fault option \<Rightarrow> 'a io) \<Rightarrow> 'a io" where
  "db_call sv k = (\<lambda>w. k (dbFault sv (dbCalls w)) (w\<lparr>dbCalls := Suc (dbCalls w)\<rparr>))"

definition createAnalysis :: "services \<Rightarrow> analysis \<Rightarrow> nat io" where
  "createAnalysis sv data =
     db_call sv (\<lambda>fault.
       case fault of
         Some NoHandle \<Rightarrow> throw_io (Error ''Database not available'')
       | Some (QueryError e) \<Rightarrow> throw_io e
       | None \<Rightarrow>
           (\<lambda>w. (Inr (nextAnalysisId w),
                 w\<lparr>analyses := (analyses w)(nextAnalysisId w \<mapsto> data\<lparr>a_id := nextAnalysisId w\<rparr>),
                   nextAnalysisId := Suc (nextAnalysisId w)\<rparr>)))"

definition getAnalysisById :: "services \<Rightarrow> nat \<Rightarrow> analysis option io" where
  "getAnalysisById sv ident =
     db_call sv (\<lambda>fault.
       case fault of
         Some NoHandle \<Rightarrow> return_io None
       | Some (QueryError e) \<Rightarrow> throw_io e
       | None \<Rightarrow> (\<lambda>w. (Inr (analyses w ident), w)))"

text \<open>\<open>data\<close>, a partial row, is given as the assignment it makes to the row.\<close>

definition updateAnalysis :: "services \<Rightarrow> nat \<Rightarrow> (analysis \<Rightarrow> analysis) \<Rightarrow> unit io" where
  "updateAnalysis sv ident data =
     db_call sv (\<lambda>fault.
       case fault of
         Some NoHandle \<Rightarrow> throw_io (Error ''Database not available'')
       | Some (QueryError e) \<Rightarrow> throw_io e
       | None \<Rightarrow>
           (\<lambda>w. case analyses w ident of
                  None \<Rightarrow> (Inr (), w)
                | Some row \<Rightarrow>
                    (Inr (), w\<lparr>analyses := (analyses w)(ident \<mapsto> data row),
                               journal := journal w @ [(ident, data row)]\<rparr>)))"

definition deleteAnalysis :: "services \<Rightarrow> nat \<Rightarrow> nat \<Rightarrow> bool io" where
  "deleteAnalysis sv ident userId =
     db_call sv (\<lambda>fault.
       case fault of
         Some NoHandle \<Rightarrow> return_io False
       | Some (QueryError e) \<Rightarrow> throw_io e
       | None \<Rightarrow>
           \<comment> \<open>First delete associated competitors\<close>
           bind_io (\<lambda>w. (Inr (), w\<lparr>competitors := filter (\<lambda>c. c_analysisId c \<noteq> ident) (competitors w)\<rparr>))
             (\<lambda>_.
           \<comment> \<open>Then delete the analysis\<close>
           db_call sv (\<lambda>fault2.
             case fault2 of
               Some (QueryError e) \<Rightarrow> throw_io e
             | _ \<Rightarrow>
                 (\<lambda>w. case analyses w ident of
                        None \<Rightarrow> (Inr False, w)
                      | Some row \<Rightarrow>
                          if a_userId row = userId
                          then (Inr True, w\<lparr>analyses := (analyses w)(ident := None)\<rparr>)
                          else (Inr False, w)))))"

definition createCompetitors :: "services \<Rightarrow> competitor list \<Rightarrow> unit io" where
  "createCompetitors sv data =
     db_call sv (\<lambda>fault.
       case fault of
         Some NoHandle \<Rightarrow> throw_io (Error ''Database not available'')
       | _ \<Rightarrow>
           if length data = 0 then return_io ()
           else (case fault of
                   Some (QueryError e) \<Rightarrow> throw_io e
                 | _ \<Rightarrow> (\<lambda>w. (Inr (), w\<lparr>competitors := competitors w @ data\<rparr>))))"

text \<open>
  \<open>ORDER BY competitiveScore DESC\<close>: highest score first, rows without a score last
  (scores lie between 0 and 100); rows with equal scores keep their insertion order.
\<close>

definition getCompetitorsByAnalysisId :: "services \<Rightarrow> nat \<Rightarrow> competitor list io" where
  "getCompetitorsByAnalysisId sv analysisId =
     db_call sv (\<lambda>fault.
       case fault of
         Some NoHandle \<Rightarrow> return_io []
       | Some (QueryError e) \<Rightarrow> throw_io e
       | None \<Rightarrow>
           (\<lambda>w. (Inr (sort_key (\<lambda>c. case c_competitiveScore c of None \<Rightarrow> 1 | Some s \<Rightarrow> - s)
                         (filter (\<lambda>c. c_analysisId c = analysisId) (competitors w))), w)))"



section \<open>Content generation (contentService)\<close>

datatype content_type = Blog | AdCopy | All

text \<open>\<open>Array.from(new Set(xs))\<close>: the first occurrence of each element, in order.\<close>

definition unique_in_order :: "'a list \<Rightarrow> 'a list" where
  "unique_in_order xs = rev (remdups (rev xs))"

text \<open>
  \<open>generateBlogPost\<close> and \<open>generateAdCopy\<close> catch every error themselves and return a
  fallback, so they are functions. Reading \<open>analysis.id\<close> of an absent row is the
  \<open>TypeError\<close> of JavaScript.
\<close>

definition generateContent ::
    "services \<Rightarrow> analysis option \<Rightarrow> competitor list \<Rightarrow> content_type
      \<Rightarrow> (string option \<times> ad list option) io" where
  "generateContent sv analysis comps type =
     (let allKeywords = concat (map (\<lambda>comp. case c_topKeywords comp of Some ks \<Rightarrow> ks | None \<Rightarrow> []) comps);
          uniqueKeywords = take 15 (unique_in_order allKeywords)
      in
      bind_io
        (if type = Blog \<or> type = All then
           bind_io (call_io CallBlogPost (Inr (generateBlogPost sv analysis comps uniqueKeywords)))
             (\<lambda>blogPost.
           case analysis of
             None \<Rightarrow> throw_io (Error ''TypeError: cannot read properties of undefined'')
           | Some a \<Rightarrow>
               bind_io (updateAnalysis sv (a_id a) (\<lambda>row. row\<lparr>a_generatedBlogPost := Some blogPost\<rparr>))
                 (\<lambda>_. return_io (Some blogPost)))
         else return_io None)
        (\<lambda>blogPost.
      bind_io
        (if type = AdCopy \<or> type = All then
           bind_io (call_io CallAdCopy (Inr (generateAdCopy sv analysis comps uniqueKeywords)))
             (\<lambda>adCopy.
           case analysis of
             None \<Rightarrow> throw_io (Error ''TypeError: cannot read properties of undefined'')
           | Some a \<Rightarrow>
               bind_io (updateAnalysis sv (a_id a) (\<lambda>row. row\<lparr>a_generatedAdCopy := Some adCopy\<rparr>))
                 (\<lambda>_. return_io (Some adCopy)))
         else return_io None)
        (\<lambda>adCopy. return_io (blogPost, adCopy))))"


section \<open>The orchestration pipeline (analysisService)\<close>

definition genericTypes :: "string list" where
  "genericTypes =
     [''point of interest'', ''point_of_interest'', ''establishment'', ''premise'',
      ''subpremise'', ''political'', ''locality'', ''route'', ''intersection'', ''finance'']"

definition isGeneric :: "services \<Rightarrow> string option \<Rightarrow> bool" where
  "isGeneric sv detectedType =
     (truthy_str detectedType
      \<and> list_ex (\<lambda>t. toLowerCase sv (the detectedType) = t) genericTypes)"

text \<open>Step 1: analyze the SEO of the target business, if it has a URL.\<close>

definition analyzeTargetSeo :: "services \<Rightarrow> nat \<Rightarrow> analysis \<Rightarrow> SEOAnalysisResult option io" where
  "analyzeTargetSeo sv analysisId analysis =
     (if truthy_str (a_businessUrl analysis) then
        bind_io (call_io (CallSEO (the (a_businessUrl analysis)))
                   (analyzeSEO sv (the (a_businessUrl analysis))))
          (\<lambda>targetSeoData.
        bind_io (updateAnalysis sv analysisId
                   (\<lambda>row. row\<lparr>a_seoScore := Some (seo_score targetSeoData),
                              a_metaTitle := metaTitle targetSeoData,
                              a_metaDescription := metaDescription targetSeoData,
                              a_headingStructure := Some (headings targetSeoData),
                              a_contentWordCount := Some (wordCount targetSeoData)\<rparr>))
          (\<lambda>_. return_io (Some targetSeoData)))
      else return_io None)"

text \<open>Step 2: analyze the online presence of the target business.\<close>

definition analyzePresence :: "services \<Rightarrow> nat \<Rightarrow> analysis \<Rightarrow> OnlinePresenceResult io" where
  "analyzePresence sv analysisId analysis =
     bind_io (call_io (CallPresence (a_businessName analysis) (a_businessLocation analysis))
                (analyzeOnlinePresence sv (a_businessName analysis) (a_businessLocation analysis)))
       (\<lambda>presenceData.
     bind_io (updateAnalysis sv analysisId
                (\<lambda>row. row\<lparr>a_hasGoogleBusiness := Some (if p_hasGoogleBusiness presenceData then 1 else 0),
                           a_googleRating := p_googleRating presenceData,
                           a_googleReviewCount := p_reviewCount presenceData,
                           a_socialProfiles := Some (p_socialProfiles presenceData)\<rparr>))
       (\<lambda>_. return_io presenceData))"

text \<open>
  Step 3, first half: the industry to search with. The result is the local variable
  \<open>detectedIndustry\<close> as it stands when \<open>discoverCompetitors\<close> is called.
\<close>

definition detectIndustry ::
    "services \<Rightarrow> nat \<Rightarrow> analysis \<Rightarrow> OnlinePresenceResult \<Rightarrow> string option io" where
  "detectIndustry sv analysisId analysis presenceData =
     (let detectedIndustry = a_industry analysis;
          detectedType = p_primaryType presenceData
      in
      \<comment> \<open>Only use detected type if it's NOT generic and we don't have a better user input\<close>
      if truthy_str detectedType \<and> \<not> isGeneric sv detectedType then
        if \<not> truthy_str detectedIndustry then
          bind_io (updateAnalysis sv analysisId (\<lambda>row. row\<lparr>a_industry := detectedType\<rparr>))
            (\<lambda>_. return_io detectedType)
        else return_io detectedIndustry
      else return_io detectedIndustry)"

text \<open>
  Step 4, for one competitor: the body of the \<open>map\<close> callback, whose parameter
  \<open>comp\<close> is \<open>cand\<close> here. It is given in three parts: the object it starts from, the
  two sub-calls joined by \<open>Promise.all\<close>, and the assignments made once both have
  settled.
\<close>

definition initialCompetitorData :: "nat \<Rightarrow> DiscoveredCompetitor \<Rightarrow> competitor" where
  "initialCompetitorData analysisId cand =
     \<lparr> c_analysisId = analysisId,
       c_name = d_name cand,
       c_url = str_or_null (d_website cand),
       c_address = str_or_null (d_address cand),
       c_phone = str_or_null (d_phone cand),
       c_placeId = str_or_null (Some (d_placeId cand)),
       c_googleRating = d_rating cand,
       c_googleReviewCount = num_or_null (d_reviewCount cand),
       c_businessTypes = (case d_types cand of Some ts \<Rightarrow> ts | None \<Rightarrow> []),
       c_seoScore = None, c_metaTitle = None, c_metaDescription = None,
       c_headingStructure = None, c_contentWordCount = None, c_topKeywords = None,
       c_employeeCount = None, c_fundingInfo = None, c_techStack = None,
       c_recentNews = None, c_competitiveScore = None, c_threatLevel = None \<rparr>"

definition competitorSubCalls ::
    "services \<Rightarrow> DiscoveredCompetitor \<Rightarrow> (SEOAnalysisResult option \<times> EnrichmentResult) io" where
  "competitorSubCalls sv cand =
     \<comment> \<open>Run SEO analysis and enrichment in parallel\<close>
     promise_all2
       \<comment> \<open>Analyze competitor SEO if they have a website\<close>
       (if truthy_str (d_website cand) then
          catch_io
            (bind_io (call_io (CallSEO (the (d_website cand))) (analyzeSEO sv (the (d_website cand))))
               (\<lambda>r. return_io (Some r)))
            (\<lambda>err. bind_io (console_warn ''SEO analysis failed'' err) (\<lambda>_. return_io None))
        else return_io None)
       \<comment> \<open>Enrich with external data\<close>
       (catch_io
          (call_io (CallEnrich (d_name cand) (d_website cand))
             (enrichCompetitorData sv (d_name cand) (d_website cand)))
          (\<lambda>err. bind_io (console_warn ''Enrichment failed'' err)
             (\<lambda>_. return_io \<lparr> employeeCount = None, fundingInfo = None,
                              techStack = None, recentNews = None \<rparr>)))"

definition finalizeCompetitor ::
    "competitor \<Rightarrow> SEOAnalysisResult option \<Rightarrow> EnrichmentResult \<Rightarrow> SEOAnalysisResult option
      \<Rightarrow> competitor" where
  "finalizeCompetitor competitorData compSeo enrichedData targetSeoData =
     (let competitorData =
            (case compSeo of
               Some seo \<Rightarrow>
                 competitorData\<lparr>c_seoScore := Some (seo_score seo),
                                c_metaTitle := metaTitle seo,
                                c_metaDescription := metaDescription seo,
                                c_headingStructure := Some (headings seo),
                                c_contentWordCount := Some (wordCount seo),
                                c_topKeywords := Some (topKeywords seo)\<rparr>
             | None \<Rightarrow> competitorData);
          competitorData =
            competitorData\<lparr>c_employeeCount := employeeCount enrichedData,
                           c_fundingInfo := fundingInfo enrichedData,
                           c_techStack := techStack enrichedData,
                           c_recentNews := recentNews enrichedData\<rparr>;
          \<comment> \<open>Calculate competitive score\<close>
          competitorData =
            competitorData\<lparr>c_competitiveScore :=
              Some (calculateCompetitiveScore competitorData targetSeoData)\<rparr>;
          competitorData =
            competitorData\<lparr>c_threatLevel :=
              Some (getThreatLevel (the (c_competitiveScore competitorData)))\<rparr>
      in competitorData)"

definition processCompetitor ::
    "services \<Rightarrow> nat \<Rightarrow> SEOAnalysisResult option \<Rightarrow> DiscoveredCompetitor \<Rightarrow> competitor io" where
  "processCompetitor sv analysisId targetSeoData cand =
     bind_io (competitorSubCalls sv cand) (\<lambda>(compSeo, enrichedData).
       return_io (finalizeCompetitor (initialCompetitorData analysisId cand)
                    compSeo enrichedData targetSeoData))"

text \<open>Step 4: all competitors, then the bulk insert.\<close>

definition analyzeCompetitors ::
    "services \<Rightarrow> nat \<Rightarrow> SEOAnalysisResult option \<Rightarrow> DiscoveredCompetitor list
      \<Rightarrow> competitor list io" where
  "analyzeCompetitors sv analysisId targetSeoData discoveredCompetitors =
     promise_all (map (processCompetitor sv analysisId targetSeoData) (take 5 discoveredCompetitors))"

definition saveCompetitors :: "services \<Rightarrow> competitor list \<Rightarrow> unit io" where
  "saveCompetitors sv competitorDataList =
     (if length competitorDataList > 0 then createCompetitors sv competitorDataList
      else return_io ())"

text \<open>
  Step 3, second half: \<open>await discoverCompetitors(businessName, location, industry)\<close>;
  the call is noted with the arguments it is made with.
\<close>

definition awaitDiscoverCompetitors ::
    "services \<Rightarrow> string \<Rightarrow> string \<Rightarrow> string option \<Rightarrow> DiscoveredCompetitor list io" where
  "awaitDiscoverCompetitors sv businessName location industry =
     call_io (CallDiscover businessName location industry)
       (findCompetitors sv businessName location industry)"

text \<open>
  The \<open>try\<close> block of \<open>runCompetitiveAnalysis\<close>, in two parts: up to the bulk insert
  of the competitors, and from the status \<open>analyzing\<close> on. The second part still reads
  the local variable \<open>analysis\<close> of the first.
\<close>

definition collectingStages :: "services \<Rightarrow> nat \<Rightarrow> analysis io" where
  "collectingStages sv analysisId =
     \<comment> \<open>Update status to collecting\<close>
     bind_io (updateAnalysis sv analysisId (\<lambda>row. row\<lparr>a_status := Collecting\<rparr>)) (\<lambda>_.
     bind_io (getAnalysisById sv analysisId) (\<lambda>found.
     case found of
       None \<Rightarrow> throw_io (Error ''Analysis not found'')
     | Some analysis \<Rightarrow>
     bind_io (analyzeTargetSeo sv analysisId analysis) (\<lambda>targetSeoData.
     bind_io (analyzePresence sv analysisId analysis) (\<lambda>presenceData.
     \<comment> \<open>Step 3: Discover competitors using Google Maps\<close>
     bind_io (detectIndustry sv analysisId analysis presenceData) (\<lambda>detectedIndustry.
     bind_io (awaitDiscoverCompetitors sv (a_businessName analysis) (a_businessLocation analysis)
                (str_or_null detectedIndustry)) (\<lambda>discoveredCompetitors.
     \<comment> \<open>Step 4: Analyze each competitor\<close>
     bind_io (analyzeCompetitors sv analysisId targetSeoData discoveredCompetitors) (\<lambda>competitorDataList.
     \<comment> \<open>Save all competitors\<close>
     bind_io (saveCompetitors sv competitorDataList) (\<lambda>_.
     return_io analysis))))))))"

definition analyzingStages :: "services \<Rightarrow> nat \<Rightarrow> analysis \<Rightarrow> unit io" where
  "analyzingStages sv analysisId analysis =
     \<comment> \<open>Update status to analyzing\<close>
     bind_io (updateAnalysis sv analysisId (\<lambda>row. row\<lparr>a_status := Analyzing\<rparr>)) (\<lambda>_.
     \<comment> \<open>Step 5: Generate AI insights\<close>
     bind_io (getAnalysisById sv analysisId) (\<lambda>updatedAnalysis.
     bind_io (getCompetitorsByAnalysisId sv analysisId) (\<lambda>savedCompetitors.
     bind_io (call_io CallAIInsights (generateAIInsights sv updatedAnalysis savedCompetitors)) (\<lambda>aiInsights.
     bind_io (updateAnalysis sv analysisId
                (\<lambda>row. row\<lparr>a_overallAnalysis := Some (ai_overallAnalysis aiInsights),
                           a_strengths := Some (ai_strengths aiInsights),
                           a_weaknesses := Some (ai_weaknesses aiInsights),
                           a_opportunities := Some (ai_opportunities aiInsights),
                           a_recommendations := Some (ai_recommendations aiInsights),
                           a_industry := (if truthy_str (ai_detectedIndustry aiInsights)
                                          then ai_detectedIndustry aiInsights
                                          else a_industry analysis)\<rparr>)) (\<lambda>_.
     \<comment> \<open>Step 6: Generate content (blog post and ad copy)\<close>
     bind_io (getAnalysisById sv analysisId) (\<lambda>finalAnalysis.
     bind_io (generateContent sv finalAnalysis savedCompetitors All) (\<lambda>contentResult.
     updateAnalysis sv analysisId
       (\<lambda>row. row\<lparr>a_generatedBlogPost := fst contentResult,
                  a_generatedAdCopy := snd contentResult,
                  a_status := Completed,
                  a_completedAt := Some (now sv)\<rparr>))))))))"

definition pipelineBody :: "services \<Rightarrow> nat \<Rightarrow> unit io" where
  "pipelineBody sv analysisId =
     bind_io (collectingStages sv analysisId) (\<lambda>analysis. analyzingStages sv analysisId analysis)"

definition runCompetitiveAnalysis :: "services \<Rightarrow> nat \<Rightarrow> unit io" where
  "runCompetitiveAnalysis sv analysisId =
     catch_io (pipelineBody sv analysisId)
       (\<lambda>err.
          bind_io (console_error ''[Analysis] Error'' err) (\<lambda>_.
          bind_io (updateAnalysis sv analysisId (\<lambda>row. row\<lparr>a_status := Failed\<rparr>)) (\<lambda>_.
          throw_io err)))"


section \<open>The \<open>analysis.create\<close> mutation (routers)\<close>

record create_input =
  in_businessName :: string
  in_businessUrl :: "string option"
  in_businessLocation :: string
  in_industry :: "string option"

text \<open>The row that \<open>db.createAnalysis\<close> is given, the other columns at their defaults.\<close>

definition newAnalysis :: "nat \<Rightarrow> create_input \<Rightarrow> analysis" where
  "newAnalysis userId input =
     \<lparr> a_id = 0, a_userId = userId,
       a_businessName = in_businessName input,
       a_businessUrl = str_or_null (in_businessUrl input),
       a_businessLocation = in_businessLocation input,
       a_industry = str_or_null (in_industry input),
       a_status = Pending,
       a_seoScore = None, a_metaTitle = None, a_metaDescription = None,
       a_headingStructure = None, a_contentWordCount = None,
       a_hasGoogleBusiness = None, a_googleRating = None, a_googleReviewCount = None,
       a_socialProfiles = None, a_overallAnalysis = None, a_strengths = None,
       a_weaknesses = None, a_opportunities = None, a_recommendations = None,
       a_generatedBlogPost = None, a_generatedAdCopy = None, a_completedAt = None \<rparr>"

text \<open>
  The pipeline is started without \<open>await\<close> and its rejection is caught and logged; the
  mutation answers \<open>{id, status: "pending"}\<close>. The world returned is the one left when
  the background run has ended.
\<close>

definition analysis_create :: "services \<Rightarrow> nat option \<Rightarrow> create_input \<Rightarrow> (nat \<times> status) io" where
  "analysis_create sv ctxUser input =
     (let userId = (case ctxUser of Some u \<Rightarrow> u | None \<Rightarrow> 0) in
      bind_io (createAnalysis sv (newAnalysis userId input)) (\<lambda>analysisId.
      bind_io (catch_io (runCompetitiveAnalysis sv analysisId)
                 (\<lambda>err. console_error ''Analysis failed'' err)) (\<lambda>_.
      return_io (analysisId, Pending))))"




section \<open>The effective industry as the specification words it\<close>



section \<open>Circuit breaker (apiRetry)\<close>

datatype breaker_state = Closed | Open | HalfOpen

record CircuitBreaker =
  failures :: int
  lastFailureTime :: int
  state :: breaker_state
  threshold :: int
  timeout :: int
  resetTimeout :: int

definition newCircuitBreaker :: "int \<Rightarrow> int \<Rightarrow> int \<Rightarrow> CircuitBreaker" where
  "newCircuitBreaker th t rt =
     \<lparr> failures = 0, lastFailureTime = 0, state = Closed,
       threshold = th, timeout = t, resetTimeout = rt \<rparr>"

text \<open>
  \<open>execute(fn)\<close>. The wrapped function acts on a world \<open>'w\<close> of its own, in which
  \<open>dateNow\<close> reads the clock; a function that is not invoked leaves that world as it is.
\<close>

definition execute ::
    "('w \<Rightarrow> int) \<Rightarrow> ('w \<Rightarrow> (error + 'a) \<times> 'w) \<Rightarrow> CircuitBreaker \<Rightarrow> 'w
      \<Rightarrow> (error + 'a) \<times> CircuitBreaker \<times> 'w" where
  "execute dateNow fn this w =
     (if state this = Open \<and> \<not> (dateNow w - lastFailureTime this \<ge> resetTimeout this) then
        (Inl (Error ''Circuit breaker is open. Service temporarily unavailable.''), this, w)
      else
        (let this = (if state this = Open then this\<lparr>state := HalfOpen\<rparr> else this) in
         case fn w of
           (Inr result, w') \<Rightarrow>
             \<comment> \<open>Success - reset the circuit breaker\<close>
             (Inr result,
              (if state this = HalfOpen then this\<lparr>state := Closed, failures := 0\<rparr> else this),
              w')
         | (Inl err, w') \<Rightarrow>
             (let this = this\<lparr>failures := failures this + 1, lastFailureTime := dateNow w'\<rparr>;
                  this = (if failures this \<ge> threshold this then this\<lparr>state := Open\<rparr> else this)
              in (Inl err, this, w'))))"

definition reset :: "CircuitBreaker \<Rightarrow> CircuitBreaker" where
  "reset this = this\<lparr>state := Closed, failures := 0, lastFailureTime := 0\<rparr>"

text \<open>A sequence of \<open>execute\<close> calls, one for each wrapped function of the list.\<close>

fun executeAll ::
    "('w \<Rightarrow> int) \<Rightarrow> ('w \<Rightarrow> (error + 'a) \<times> 'w) list \<Rightarrow> CircuitBreaker \<Rightarrow> 'w
      \<Rightarrow> CircuitBreaker \<times> 'w" where
  "executeAll dateNow [] this w = (this, w)"
| "executeAll dateNow (fn # fns) this w =
     (case execute dateNow fn this w of (_, this', w') \<Rightarrow> executeAll dateNow fns this' w')"


section \<open>What the specification says about one competitor's record\<close>

text \<open>
  The outcome of the two sub-calls for one competitor as the specification describes
  them: a sub-call that fails (or an SEO sub-call that is not made, for want of a
  website) leaves its fields absent.
\<close>

definition seoOutcome :: "services \<Rightarrow> DiscoveredCompetitor \<Rightarrow> SEOAnalysisResult option" where
  "seoOutcome sv cand =
     (if truthy_str (d_website cand)
      then (case analyzeSEO sv (the (d_website cand)) of Inr r \<Rightarrow> Some r | Inl _ \<Rightarrow> None)
      else None)"

definition enrichOutcome :: "services \<Rightarrow> DiscoveredCompetitor \<Rightarrow> EnrichmentResult" where
  "enrichOutcome sv cand =
     (case enrichCompetitorData sv (d_name cand) (d_website cand) of
        Inr r \<Rightarrow> r
      | Inl _ \<Rightarrow> \<lparr> employeeCount = None, fundingInfo = None, techStack = None, recentNews = None \<rparr>)"

definition specCompetitorRecord ::
    "nat \<Rightarrow> SEOAnalysisResult option \<Rightarrow> EnrichmentResult \<Rightarrow> DiscoveredCompetitor \<Rightarrow> competitor" where
  "specCompetitorRecord analysisId seo enriched cand =
     (let url = str_or_null (d_website cand);
          reviews = num_or_null (d_reviewCount cand);
          seoScore = map_option seo_score seo;
          competitiveScore = specCompetitiveScore seoScore (d_rating cand) reviews (truthy_str url)
      in
      \<lparr> c_analysisId = analysisId,
        c_name = d_name cand,
        c_url = url,
        c_address = str_or_null (d_address cand),
        c_phone = str_or_null (d_phone cand),
        c_placeId = str_or_null (Some (d_placeId cand)),
        c_googleRating = d_rating cand,
        c_googleReviewCount = reviews,
        c_businessTypes = (case d_types cand of Some ts \<Rightarrow> ts | None \<Rightarrow> []),
        c_seoScore = seoScore,
        c_metaTitle = (case seo of Some r \<Rightarrow> metaTitle r | None \<Rightarrow> None),
        c_metaDescription = (case seo of Some r \<Rightarrow> metaDescription r | None \<Rightarrow> None),
        c_headingStructure = map_option headings seo,
        c_contentWordCount = map_option wordCount seo,
        c_topKeywords = map_option topKeywords seo,
        c_employeeCount = employeeCount enriched,
        c_fundingInfo = fundingInfo enriched,
        c_techStack = techStack enriched,
        c_recentNews = recentNews enriched,
        c_competitiveScore = Some competitiveScore,
        c_threatLevel =
          Some (if competitiveScore \<ge> 75 then High
                else if competitiveScore \<ge> 50 then Medium else Low) \<rparr>)"

text \<open>Two worlds with the same tables and the same database history.\<close>

definition same_store :: "world \<Rightarrow> world \<Rightarrow> bool" where
  "same_store w w' =
     (analyses w' = analyses w \<and> competitors w' = competitors w
      \<and> nextAnalysisId w' = nextAnalysisId w \<and> journal w' = journal w \<and> dbCalls w' = dbCalls w)"




section \<open>Assertions about runs\<close>

text \<open>
  \<open>hoare P m Q E\<close>: from a world that satisfies \<open>P\<close>, the action \<open>m\<close> resolves with a
  value and a world that satisfy \<open>Q\<close>, or rejects with an error and a world that
  satisfy \<open>E\<close>. \<open>keeps mayThrow Inv m\<close>: the action keeps the invariant, and rejects
  only if \<open>mayThrow\<close>.
\<close>

definition hoare ::
    "(world \<Rightarrow> bool) \<Rightarrow> 'a io \<Rightarrow> ('a \<Rightarrow> world \<Rightarrow> bool) \<Rightarrow> (error \<Rightarrow> world \<Rightarrow> bool) \<Rightarrow> bool" where
  "hoare P m Q E =
     (\<forall>w. P w \<longrightarrow> (case m w of (Inr x, w') \<Rightarrow> Q x w' | (Inl e, w') \<Rightarrow> E e w'))"

definition keeps :: "bool \<Rightarrow> (world \<Rightarrow> bool) \<Rightarrow> 'a io \<Rightarrow> bool" where
  "keeps mayThrow Inv m = hoare Inv m (\<lambda>_. Inv) (\<lambda>_ w. mayThrow \<and> Inv w)"

text \<open>An assertion that only looks at the two tables and the journal.\<close>

definition store_pred :: "(world \<Rightarrow> bool) \<Rightarrow> bool" where
  "store_pred Inv =
     (\<forall>w w'. analyses w' = analyses w \<and> competitors w' = competitors w \<and> journal w' = journal w
        \<longrightarrow> Inv w \<longrightarrow> Inv w')"

text \<open>The same, as a relation between the world before and the world after.\<close>

definition untouched :: "world \<Rightarrow> world \<Rightarrow> bool" where
  "untouched w w' =
     (analyses w' = analyses w \<and> competitors w' = competitors w \<and> journal w' = journal w)"

text \<open>A database that answers every query of the run.\<close>

definition no_faults :: "services \<Rightarrow> bool" where
  "no_faults sv = (\<forall>n. dbFault sv n = None)"

text \<open>The error with which a query function rejects on a fault.\<close>

fun fault_error :: "db_fault \<Rightarrow> error" where
  "fault_error NoHandle = Error ''Database not available''"
| "fault_error (QueryError e) = e"

text \<open>
  The status transitions: as the code makes them (\<open>actual_step\<close>: a write that leaves
  the status as it is, a step forward, or a step to \<open>failed\<close> from any status that is
  not final), and as the specification states them (\<open>claimed_step\<close>: to \<open>failed\<close> only
  from \<open>collecting\<close> or \<open>analyzing\<close>).
\<close>

definition actual_step :: "status \<Rightarrow> status \<Rightarrow> bool" where
  "actual_step s t =
     (s = t \<or> (s = Pending \<and> t = Collecting) \<or> (s = Collecting \<and> t = Analyzing)
      \<or> (s = Analyzing \<and> t = Completed)
      \<or> (t = Failed \<and> (s = Pending \<or> s = Collecting \<or> s = Analyzing)))"

definition claimed_step :: "status \<Rightarrow> status \<Rightarrow> bool" where
  "claimed_step s t =
     (s = t \<or> (s = Pending \<and> t = Collecting) \<or> (s = Collecting \<and> t = Analyzing)
      \<or> (s = Analyzing \<and> t = Completed)
      \<or> (t = Failed \<and> (s = Collecting \<or> s = Analyzing)))"

fun chain_ok :: "('a \<Rightarrow> 'a \<Rightarrow> bool) \<Rightarrow> 'a \<Rightarrow> 'a list \<Rightarrow> bool" where
  "chain_ok step s [] = True"
| "chain_ok step s (t # ts) = (step s t \<and> chain_ok step t ts)"

text \<open>The rows of analysis \<open>ident\<close> that were written between two worlds, oldest first.\<close>

definition rowsWritten :: "nat \<Rightarrow> world \<Rightarrow> world \<Rightarrow> analysis list" where
  "rowsWritten ident w w' =
     map snd (filter (\<lambda>entry. fst entry = ident) (drop (length (journal w)) (journal w')))"

definition statusHistory :: "nat \<Rightarrow> world \<Rightarrow> world \<Rightarrow> status list" where
  "statusHistory ident w w' = map a_status (rowsWritten ident w w')"

definition completedAt_ok :: "analysis \<Rightarrow> bool" where
  "completedAt_ok row = ((a_completedAt row \<noteq> None) = (a_status row = Completed))"

text \<open>
  What one write does to \<open>completedAt\<close>: it is set when the write makes the status
  \<open>completed\<close>, and left as it is by every other write. \<open>write_step\<close> is a write that
  does this and whose status transition is one of \<open>actual_step\<close>.
\<close>

definition stamp_step :: "analysis \<Rightarrow> analysis \<Rightarrow> bool" where
  "stamp_step row row' =
     (if a_status row \<noteq> Completed \<and> a_status row' = Completed then a_completedAt row' \<noteq> None
      else a_completedAt row' = a_completedAt row)"

definition write_step :: "analysis \<Rightarrow> analysis \<Rightarrow> bool" where
  "write_step row row' = (actual_step (a_status row) (a_status row') \<and> stamp_step row row')"

text \<open>
  The invariant of a run on analysis \<open>ident\<close> that started from the world \<open>w0\<close>, in
  which the stored row was \<open>row0\<close>: the journal has only grown, the rows written since
  follow one another, from \<open>row0\<close> on, by steps of \<open>write_step\<close>, the stored row is the
  last of them, and its status is \<open>s\<close>.
\<close>

definition tracked :: "nat \<Rightarrow> world \<Rightarrow> analysis \<Rightarrow> status \<Rightarrow> world \<Rightarrow> bool" where
  "tracked ident w0 row0 s w =
     (analyses w ident = Some (last (row0 # rowsWritten ident w0 w))
      \<and> a_status (last (row0 # rowsWritten ident w0 w)) = s
      \<and> take (length (journal w0)) (journal w) = journal w0
      \<and> length (journal w0) \<le> length (journal w)
      \<and> chain_ok write_step row0 (rowsWritten ident w0 w))"

text \<open>The tables of a run in which nothing fails: the row is there, the competitors are \<open>rows\<close>.\<close>

definition alive :: "nat \<Rightarrow> competitor list \<Rightarrow> world \<Rightarrow> bool" where
  "alive ident rows w = (analyses w ident \<noteq> None \<and> competitors w = rows)"

text \<open>The records of the first five discovered competitors, as the specification describes them.\<close>

definition specCompetitorRecords ::
    "services \<Rightarrow> nat \<Rightarrow> DiscoveredCompetitor list \<Rightarrow> competitor list" where
  "specCompetitorRecords sv analysisId discovered =
     map (\<lambda>cand. specCompetitorRecord analysisId (seoOutcome sv cand) (enrichOutcome sv cand) cand)
       (take 5 discovered)"

text \<open>
  What the run on analysis \<open>ident\<close> lets an observer see of the industry: the calls to
  competitor discovery made so far, and the industry of the stored row.
\<close>

fun discoverCall :: "call \<Rightarrow> bool" where
  "discoverCall (CallDiscover name location industry) = True"
| "discoverCall _ = False"

definition discoverCalls :: "world \<Rightarrow> call list" where
  "discoverCalls w = filter discoverCall (calls w)"

definition storedIndustry :: "nat \<Rightarrow> world \<Rightarrow> string option option" where
  "storedIndustry ident w = map_option a_industry (analyses w ident)"




section \<open>Auxiliary notions and example inputs\<close>

text \<open>Whether the analysis \<open>ident\<close> exists and belongs to the user.\<close>

definition owns :: "world \<Rightarrow> nat \<Rightarrow> nat \<Rightarrow> bool" where
  "owns w ident userId = (case analyses w ident of Some row \<Rightarrow> a_userId row = userId | None \<Rightarrow> False)"

text \<open>
  Between two calls, a breaker with a positive threshold is never half-open, and it is
  open exactly when its failure count has reached the threshold.
\<close>

definition settled :: "CircuitBreaker \<Rightarrow> bool" where
  "settled cb = (0 < threshold cb \<and> state cb \<noteq> HalfOpen
      \<and> (state cb = Open) = (failures cb \<ge> threshold cb))"

text \<open>A wrapped function that fails and takes one millisecond; the world is the clock.\<close>

definition failing_call :: "int \<Rightarrow> (error + unit) \<times> int" where
  "failing_call clock = (Inl (Error ''ECONNRESET''), clock + 1)"

definition succeeding_call :: "int \<Rightarrow> (error + unit) \<times> int" where
  "succeeding_call clock = (Inr (), clock + 1)"

definition tripped_breaker :: CircuitBreaker where
  "tripped_breaker =
     \<lparr> failures = 3, lastFailureTime = 3, state = Open,
       threshold = 3, timeout = 120000, resetTimeout = 60000 \<rparr>"

text \<open>
  An analysis of "Joe's Coffee" without URL or industry, as \<open>analysis.create\<close> stores it
  for a guest under the id 1, and services for it: the place search of
  \<open>example_api\<close>, a presence lookup that detects a cafe, SEO and enrichment calls that
  fail with a network error, and a database without faults.
\<close>

definition example_input :: create_input where
  "example_input =
     \<lparr> in_businessName = ''Joe's Coffee'', in_businessUrl = None,
       in_businessLocation = ''Austin'', in_industry = None \<rparr>"

definition example_row :: analysis where
  "example_row = (newAnalysis 0 example_input)\<lparr>a_id := 1\<rparr>"

definition example_world :: world where
  "example_world =
     \<lparr> analyses = [1 \<mapsto> example_row], competitors = [], nextAnalysisId = 2,
       journal = [], console = [], calls = [], dbCalls = 0 \<rparr>"

definition example_presence :: OnlinePresenceResult where
  "example_presence =
     \<lparr> p_hasGoogleBusiness = True, p_googleRating = Some (9 / 2), p_reviewCount = Some 120,
       p_socialProfiles = [], p_types = Some [''cafe'', ''point_of_interest''],
       p_primaryType = Some ''cafe'' \<rparr>"


definition example_insights :: AIInsightsResult where
  "example_insights =
     \<lparr> ai_overallAnalysis = ''ok'', ai_strengths = [], ai_weaknesses = [],
       ai_opportunities = [], ai_recommendations = [], ai_detectedIndustry = None \<rparr>"

definition example_services :: services where
  "example_services =
     \<lparr> analyzeSEO = (\<lambda>_. Inl (Error ''network error'')),
       analyzeOnlinePresence = (\<lambda>_ _. Inr example_presence),
       findCompetitors = (\<lambda>name location industry.
          Inr (discoverCompetitors asciiLowerCase example_api name location industry)),
       enrichCompetitorData = (\<lambda>_ _. Inl (Error ''network error'')),
       generateAIInsights = (\<lambda>_ _. Inr example_insights),
       generateBlogPost = (\<lambda>_ _ _. ''post''),
       generateAdCopy = (\<lambda>_ _ _. []),
       dbFault = (\<lambda>_. None),
       now = 1000,
       toLowerCase = asciiLowerCase \<rparr>"


text \<open>
  The same services with a database that rejects the first query of the run and answers
  the later ones, and with a database that rejects every query.
\<close>

definition flaky_services :: services where
  "flaky_services =
     example_services\<lparr>dbFault :=
       (\<lambda>n. if n = 0 then Some (QueryError (Error ''connection lost'')) else None)\<rparr>"


text \<open>
  Services whose discovery answers two rivals: the SEO call fails for every site, and
  the enrichment call fails for the first rival and answers for the second.
\<close>

definition rival_a :: DiscoveredCompetitor where
  "rival_a =
     \<lparr> d_name = ''Bean There'', d_placeId = ''p3'', d_address = None, d_phone = None,
       d_website = Some ''https://beanthere.example'', d_rating = Some (9 / 2),
       d_reviewCount = Some 200, d_types = None, d_location = None \<rparr>"

definition rival_b :: DiscoveredCompetitor where
  "rival_b =
     \<lparr> d_name = ''Brew Bros'', d_placeId = ''p4'', d_address = None, d_phone = None,
       d_website = None, d_rating = None, d_reviewCount = None, d_types = None,
       d_location = None \<rparr>"

definition mixed_services :: services where
  "mixed_services =
     example_services\<lparr>
       findCompetitors := (\<lambda>_ _ _. Inr [rival_a, rival_b]),
       enrichCompetitorData :=
         (\<lambda>name _. if name = ''Bean There'' then Inl (Error ''network error'')
                    else Inr \<lparr> employeeCount = Some ''11-50'', fundingInfo = None,
                               techStack = None, recentNews = None \<rparr>)\<rparr>"

text \<open>The same world with one competitor of analysis 1 and one of analysis 2.\<close>

definition crowded_world :: world where
  "crowded_world =
     example_world\<lparr>competitors :=
       [initialCompetitorData 1 (toCompetitor example_api (example_place ''Bean There'' ''p3'')),
        initialCompetitorData 2 (toCompetitor example_api (example_place ''Brew Bros'' ''p4''))]\<rparr>"


section \<open>Results about the SEO score\<close>

lemma title_stage:
  "(if truthy_str v then
      (if length (the v) \<ge> lo \<and> length (the v) \<le> hi then s + 10 + 10
       else if length (the v) > 0 then s + 10 + 5 else s + 10)
    else s) = s + wellSizedPoints lo hi v"
  by (cases v) (simp_all add: truthy_str_def wellSizedPoints_def)

lemma h1_stage:
  "(if n = 1 then s + 15 else if n > 0 then s + 8 else s) = s + h1Points n"
  by (simp add: h1Points_def)

lemma h2_stage:
  "(if n \<ge> 2 then s + 15 else if n > 0 then s + 8 else s) = s + h2Points n"
  by (simp add: h2Points_def)

lemma content_stage:
  "(if w \<ge> 1000 then s + 20 else if w \<ge> 500 then s + 15 else if w \<ge> 300 then s + 10
    else if w > 0 then s + 5 else s) = s + contentPoints w"
  by (simp add: contentPoints_def)

lemma keyword_stage:
  "(if k \<ge> 8 then s + 10 else if k \<ge> 5 then s + 7 else if k > 0 then s + 3 else s)
     = s + keywordPoints k"
  by (simp add: keywordPoints_def)

lemma wellSizedPoints_le: "wellSizedPoints lo hi v \<le> 20"
  by (simp add: wellSizedPoints_def split: option.splits)

lemma h1Points_le: "h1Points n \<le> 15"
  by (simp add: h1Points_def)

lemma h2Points_le: "h2Points n \<le> 15"
  by (simp add: h2Points_def)

lemma contentPoints_le: "contentPoints w \<le> 20"
  by (simp add: contentPoints_def)

lemma keywordPoints_le: "keywordPoints k \<le> 10"
  by (simp add: keywordPoints_def)

lemma calculateSEOScore_sum:
  "calculateSEOScore r =
     wellSizedPoints 30 60 (metaTitle r) + wellSizedPoints 120 160 (metaDescription r)
     + h1Points (length (h1 (headings r))) + h2Points (length (h2 (headings r)))
     + contentPoints (wordCount r) + keywordPoints (length (topKeywords r))"
proof -
  have unfolded: "calculateSEOScore r =
     min 100 (0 + wellSizedPoints 30 60 (metaTitle r) + wellSizedPoints 120 160 (metaDescription r)
     + h1Points (length (h1 (headings r))) + h2Points (length (h2 (headings r)))
     + contentPoints (wordCount r) + keywordPoints (length (topKeywords r)))"
    unfolding calculateSEOScore_def Let_def
    unfolding title_stage h1_stage h2_stage content_stage keyword_stage ..
  show ?thesis
    using wellSizedPoints_le [of 30 60 "metaTitle r"]
      wellSizedPoints_le [of 120 160 "metaDescription r"]
      h1Points_le [of "length (h1 (headings r))"] h2Points_le [of "length (h2 (headings r))"]
      contentPoints_le [of "wordCount r"] keywordPoints_le [of "length (topKeywords r)"]
    unfolding unfolded by linarith
qed


text \<open>
  C5 (as amended). The SEO score is the sum of six checks: title and description
  (20 points each, reached exactly when the text is present and its length lies in
  30..60, respectively 120..160), exactly one H1 (15), at least two H2 (15), content
  length (20 from 1000 words, 15 from 500, 10 from 300), keyword diversity (10 from 8
  keywords). A page with a 45-character title, a 140-character description, one H1,
  three H2, 1200 words and at least 8 extracted keywords scores 100.
\<close>

theorem seo_score_six_checks:
  "calculateSEOScore r =
     wellSizedPoints 30 60 (metaTitle r) + wellSizedPoints 120 160 (metaDescription r)
     + h1Points (length (h1 (headings r))) + h2Points (length (h2 (headings r)))
     + contentPoints (wordCount r) + keywordPoints (length (topKeywords r))
   \<and> wellSizedPoints lo hi v \<le> 20
   \<and> (wellSizedPoints lo hi v = 20) = (\<exists>s. v = Some s \<and> s \<noteq> [] \<and> lo \<le> length s \<and> length s \<le> hi)
   \<and> h1Points n \<le> 15 \<and> (h1Points n = 15) = (n = 1)
   \<and> h2Points n \<le> 15 \<and> (h2Points n = 15) = (n \<ge> 2)
   \<and> contentPoints n \<le> 20 \<and> (contentPoints n = 20) = (n \<ge> 1000)
   \<and> (contentPoints n = 15) = (500 \<le> n \<and> n < 1000)
   \<and> (contentPoints n = 10) = (300 \<le> n \<and> n < 500)
   \<and> keywordPoints n \<le> 10 \<and> (keywordPoints n = 10) = (n \<ge> 8)
   \<and> (metaTitle r = Some t \<and> length t = 45 \<and> metaDescription r = Some d \<and> length d = 140
        \<and> length (h1 (headings r)) = 1 \<and> length (h2 (headings r)) = 3
        \<and> wordCount r = 1200 \<and> length (topKeywords r) \<ge> 8
      \<longrightarrow> calculateSEOScore r = 100)"
proof -
  have title: "(wellSizedPoints lo hi v = 20)
      = (\<exists>s. v = Some s \<and> s \<noteq> [] \<and> lo \<le> length s \<and> length s \<le> hi)"
    by (cases v) (auto simp: wellSizedPoints_def)
  have best: "calculateSEOScore r = 100"
    if "metaTitle r = Some t" "length t = 45" "metaDescription r = Some d" "length d = 140"
      "length (h1 (headings r)) = 1" "length (h2 (headings r)) = 3"
      "wordCount r = 1200" "length (topKeywords r) \<ge> 8"
  proof -
    have "t \<noteq> []" "d \<noteq> []" using that by auto
    then show ?thesis
      using that
      by (simp add: calculateSEOScore_sum wellSizedPoints_def h1Points_def h2Points_def
          contentPoints_def keywordPoints_def)
  qed
  have content: "contentPoints n \<le> 20" "(contentPoints n = 20) = (n \<ge> 1000)"
    "(contentPoints n = 15) = (500 \<le> n \<and> n < 1000)"
    "(contentPoints n = 10) = (300 \<le> n \<and> n < 500)"
    by (auto simp: contentPoints_def)
  have kws: "keywordPoints n \<le> 10" "(keywordPoints n = 10) = (n \<ge> 8)"
    by (auto simp: keywordPoints_def)
  have hs: "h1Points n \<le> 15" "(h1Points n = 15) = (n = 1)"
    "h2Points n \<le> 15" "(h2Points n = 15) = (n \<ge> 2)"
    by (auto simp: h1Points_def h2Points_def)
  show ?thesis
    using calculateSEOScore_sum [of r] wellSizedPoints_le [of lo hi v] title content kws hs best
    by blast
qed

theorem seo_score_six_checks_witness:
  "metaTitle diverse_page = Some (replicate 45 CHR ''t'')
   \<and> length (replicate 45 CHR ''t'') = 45
   \<and> metaDescription diverse_page = Some (replicate 140 CHR ''d'')
   \<and> length (replicate 140 CHR ''d'') = 140
   \<and> length (h1 (headings diverse_page)) = 1 \<and> length (h2 (headings diverse_page)) = 3
   \<and> wordCount diverse_page = 1200 \<and> length (topKeywords diverse_page) \<ge> 8
   \<and> calculateSEOScore diverse_page = 100"
proof -
  have pre: "metaTitle diverse_page = Some (replicate 45 CHR ''t'')
      \<and> length (replicate 45 CHR ''t'') = 45
      \<and> metaDescription diverse_page = Some (replicate 140 CHR ''d'')
      \<and> length (replicate 140 CHR ''d'') = 140
      \<and> length (h1 (headings diverse_page)) = 1 \<and> length (h2 (headings diverse_page)) = 3
      \<and> wordCount diverse_page = 1200 \<and> length (topKeywords diverse_page) \<ge> 8"
    by (simp add: diverse_page_def lorem_page_def)
  from seo_score_six_checks [of diverse_page _ _ _ _ "replicate 45 CHR ''t''" "replicate 140 CHR ''d''"]
  have "metaTitle diverse_page = Some (replicate 45 CHR ''t'')
      \<and> length (replicate 45 CHR ''t'') = 45
      \<and> metaDescription diverse_page = Some (replicate 140 CHR ''d'')
      \<and> length (replicate 140 CHR ''d'') = 140
      \<and> length (h1 (headings diverse_page)) = 1 \<and> length (h2 (headings diverse_page)) = 3
      \<and> wordCount diverse_page = 1200 \<and> length (topKeywords diverse_page) \<ge> 8
      \<longrightarrow> calculateSEOScore diverse_page = 100"
    by blast
  with pre show ?thesis by blast
qed

text \<open>
  C5 as stated fails: a page with a 45-character title, a 140-character description,
  one H1, three H2 and 1200 words, all of them the same word, has one keyword and
  scores 93.
\<close>

theorem seo_score_1200_words_counterexample:
  "metaTitle lorem_page = Some (replicate 45 CHR ''t'')
   \<and> length (replicate 45 CHR ''t'') = 45
   \<and> metaDescription lorem_page = Some (replicate 140 CHR ''d'')
   \<and> length (replicate 140 CHR ''d'') = 140
   \<and> length (h1 (headings lorem_page)) = 1 \<and> length (h2 (headings lorem_page)) = 3
   \<and> wordCount lorem_page = 1200
   \<and> calculateSEOScore lorem_page = 93"
  by (simp add: calculateSEOScore_sum lorem_page_def wellSizedPoints_def h1Points_def
      h2Points_def contentPoints_def keywordPoints_def)


section \<open>Results about the competitive score\<close>

lemma to_double_0 [simp]: "to_double 0 = 0"
  by (simp add: to_double_def)

lemma js_add_0 [simp]: "js_add s 0 = s"
  by (simp add: js_add_def)

lemma js_number_0 [simp]: "js_number 0 = 0"
  by (simp add: js_number_def)

lemma js_div_0 [simp]: "js_div 0 d = 0"
  by (simp add: js_div_def)

lemma num_stage:
  "(if truthy_num v then js_add s (min (js_div (js_number (the v)) d) cap) else s)
     = js_add s (case v of None \<Rightarrow> 0 | Some n \<Rightarrow> min (js_div (js_number n) d) cap)" if "0 \<le> cap"
  using that by (cases v) (simp_all add: truthy_num_def)

lemma rating_stage:
  "(case r of Some googleRating \<Rightarrow> js_add s (js_mul (js_sub (parseFloat googleRating) 3) 10)
    | None \<Rightarrow> s)
     = js_add s (case r of None \<Rightarrow> 0 | Some g \<Rightarrow> js_mul (js_sub (parseFloat g) 3) 10)"
  by (cases r) simp_all

lemma website_stage: "(if b then js_add s 5 else s) = js_add s (if b then 5 else 0)"
  by simp

lemma calculateCompetitiveScore_spec:
  "calculateCompetitiveScore c t =
     specCompetitiveScore (c_seoScore c) (c_googleRating c) (c_googleReviewCount c) (truthy_str (c_url c))"
  unfolding calculateCompetitiveScore_def specCompetitiveScore_def Let_def
  by (simp only: num_stage rating_stage website_stage)

lemma truthy_str_or_null [simp]: "truthy_str (str_or_null v) = truthy_str v"
  by (simp add: str_or_null_def truthy_str_def)

lemma finalizeCompetitor_spec:
  "finalizeCompetitor (initialCompetitorData aid cand) seo enr t = specCompetitorRecord aid seo enr cand"
  by (cases seo)
    (simp_all add: finalizeCompetitor_def initialCompetitorData_def specCompetitorRecord_def
      Let_def calculateCompetitiveScore_spec getThreatLevel_def)

lemma competitorSubCalls_result:
  "\<exists>w'. competitorSubCalls sv cand w = (Inr (seoOutcome sv cand, enrichOutcome sv cand), w')
        \<and> same_store w w'"
  by (cases "analyzeSEO sv (the (d_website cand))";
      cases "enrichCompetitorData sv (d_name cand) (d_website cand)")
    (simp_all add: competitorSubCalls_def seoOutcome_def enrichOutcome_def
      same_store_def promise_all2_def bind_io_def catch_io_def call_io_def return_io_def
      console_warn_def)

lemma processCompetitor_result:
  "\<exists>w'. processCompetitor sv aid t cand w =
          (Inr (specCompetitorRecord aid (seoOutcome sv cand) (enrichOutcome sv cand) cand), w')
        \<and> same_store w w'"
  using competitorSubCalls_result [of sv cand w]
  by (auto simp: processCompetitor_def bind_io_def return_io_def finalizeCompetitor_spec)


section \<open>Results about competitor discovery\<close>

lemma skip_iff_not_qualifies:
  "(str_includes (lc (place_name place)) (lc target)
      \<or> str_includes (lc target) (lc (place_name place))
      \<or> isLargeDirectory lc (place_name place)) = (\<not> qualifies lc target place)"
  by (auto simp: qualifies_def selfMatch_def str_includes_def)

lemma collectCompetitors_take:
  "length acc < 5 \<Longrightarrow>
   collectCompetitors lc api (lc target) places acc =
     acc @ map (toCompetitor api) (take (5 - length acc) (filter (qualifies lc target) places))"
proof (induction places arbitrary: acc)
  case Nil
  then show ?case by simp
next
  case (Cons place rest)
  show ?case
  proof (cases "qualifies lc target place")
    case False
    then have "str_includes (lc (place_name place)) (lc target)
      \<or> str_includes (lc target) (lc (place_name place))
      \<or> isLargeDirectory lc (place_name place)"
      using skip_iff_not_qualifies by blast
    then have "collectCompetitors lc api (lc target) (place # rest) acc
        = collectCompetitors lc api (lc target) rest acc"
      by auto
    with False Cons show ?thesis by simp
  next
    case True
    then have keep: "\<not> str_includes (lc (place_name place)) (lc target)"
      "\<not> str_includes (lc target) (lc (place_name place))"
      "\<not> isLargeDirectory lc (place_name place)"
      using skip_iff_not_qualifies by blast+
    show ?thesis
    proof (cases "length acc = 4")
      case True
      with keep \<open>qualifies lc target place\<close> show ?thesis by (simp add: Let_def)
    next
      case False
      with Cons.prems have short: "length (acc @ [toCompetitor api place]) < 5" by simp
      have "5 - length acc = Suc (5 - length (acc @ [toCompetitor api place]))"
        using Cons.prems by simp
      with keep \<open>qualifies lc target place\<close> Cons.IH [OF short] False Cons.prems
      show ?thesis by (simp add: Let_def)
    qed
  qed
qed

lemma searchNearbyPlaces_OK:
  "textSearchRequest api query lat lng = Inr data \<Longrightarrow> ts_status data = ''OK''
   \<Longrightarrow> ts_results data = Some rs
   \<Longrightarrow> searchNearbyPlaces lc api lat lng query target
       = map (toCompetitor api) (take 5 (filter (qualifies lc target) rs))"
  by (simp add: searchNearbyPlaces_def collectCompetitors_take)

lemma searchNearbyPlaces_shape:
  "\<exists>rs. searchNearbyPlaces lc api lat lng query target
       = map (toCompetitor api) (take 5 (filter (qualifies lc target) rs))"
proof (cases "textSearchRequest api query lat lng")
  case (Inl e)
  then have "searchNearbyPlaces lc api lat lng query target
      = map (toCompetitor api) (take 5 (filter (qualifies lc target) []))"
    by (simp add: searchNearbyPlaces_def)
  then show ?thesis by blast
next
  case (Inr data)
  show ?thesis
  proof (cases "ts_status data = ''OK'' \<and> ts_results data \<noteq> None")
    case True
    then obtain rs where "ts_results data = Some rs" by auto
    with Inr True show ?thesis using searchNearbyPlaces_OK by blast
  next
    case False
    with Inr have "searchNearbyPlaces lc api lat lng query target
      = map (toCompetitor api) (take 5 (filter (qualifies lc target) []))"
      by (auto simp: searchNearbyPlaces_def)
    then show ?thesis by blast
  qed
qed

lemma discoverCompetitors_shape:
  "\<exists>rs. discoverCompetitors lc api target location industry
       = map (toCompetitor api) (take 5 (filter (qualifies lc target) rs))"
proof (cases "geocodeLocation api location")
  case None
  then have "discoverCompetitors lc api target location industry
      = map (toCompetitor api) (take 5 (filter (qualifies lc target) []))"
    by (simp add: discoverCompetitors_def)
  then show ?thesis by blast
next
  case (Some ll)
  then show ?thesis
    using searchNearbyPlaces_shape
    by (cases ll) (simp add: discoverCompetitors_def Let_def)
qed

lemma d_name_toCompetitor [simp]: "d_name (toCompetitor api place) = place_name place"
  by (simp add: toCompetitor_def Let_def)

lemma joes_ascii: "selfMatch asciiLowerCase ''Joe's Coffee'' ''Joe's Coffee Downtown''"
  unfolding selfMatch_def by code_simp

lemma joes:
  assumes "lowers_ascii lc"
  shows "selfMatch lc ''Joe's Coffee'' ''Joe's Coffee Downtown''"
proof -
  have "ascii_only ''Joe's Coffee''" "ascii_only ''Joe's Coffee Downtown''"
    by code_simp+
  with assms have "lc ''Joe's Coffee'' = asciiLowerCase ''Joe's Coffee''"
    "lc ''Joe's Coffee Downtown'' = asciiLowerCase ''Joe's Coffee Downtown''"
    unfolding lowers_ascii_def by blast+
  with joes_ascii show ?thesis by (simp add: selfMatch_def)
qed

lemma lowers_ascii_asciiLowerCase: "lowers_ascii asciiLowerCase"
  by (simp add: lowers_ascii_def)


text \<open>
  C6. Whatever the lower-casing \<open>lc\<close> of the runtime is, \<open>discoverCompetitors\<close> returns
  at most five candidates; none of them is a self-match of the target name (after
  lower-casing, in either direction) or a directory of the block-list; when the place
  search answers a list, the result is made of the first five places of that list that
  pass the filter, in the order of the list; with a lower-casing that lower-cases ASCII
  strings as JavaScript does, a target named "Joe's Coffee" never yields
  "Joe's Coffee Downtown".
\<close>

theorem discovery_filters_and_caps:
  "length (discoverCompetitors lc api target location industry) \<le> 5
   \<and> list_all (\<lambda>c. \<not> selfMatch lc target (d_name c) \<and> \<not> isLargeDirectory lc (d_name c))
        (discoverCompetitors lc api target location industry)
   \<and> (geocodeLocation api location = Some (lat, lng)
        \<and> textSearchRequest api
             (if truthy_str industry then the industry else extractIndustryFromName lc target) lat lng
            = Inr data
        \<and> ts_status data = ''OK'' \<and> ts_results data = Some rs
      \<longrightarrow> discoverCompetitors lc api target location industry
            = map (toCompetitor api) (take 5 (filter (qualifies lc target) rs)))
   \<and> (lowers_ascii lc
      \<longrightarrow> ''Joe's Coffee Downtown''
            \<notin> set (map d_name (discoverCompetitors lc api ''Joe's Coffee'' location industry)))"
proof -
  obtain rs' where shape: "discoverCompetitors lc api target location industry
       = map (toCompetitor api) (take 5 (filter (qualifies lc target) rs'))"
    using discoverCompetitors_shape by blast
  have cap: "length (discoverCompetitors lc api target location industry) \<le> 5"
    unfolding shape by simp
  have q: "\<not> selfMatch lc target (place_name p) \<and> \<not> isLargeDirectory lc (place_name p)"
    if "p \<in> set (take 5 (filter (qualifies lc target) rs'))" for p
    using in_set_takeD [OF that] by (simp add: qualifies_def)
  have filtered: "list_all (\<lambda>c. \<not> selfMatch lc target (d_name c) \<and> \<not> isLargeDirectory lc (d_name c))
        (discoverCompetitors lc api target location industry)"
    unfolding shape list_all_iff
  proof
    fix c
    assume "c \<in> set (map (toCompetitor api) (take 5 (filter (qualifies lc target) rs')))"
    then obtain p where "p \<in> set (take 5 (filter (qualifies lc target) rs'))" "c = toCompetitor api p"
      by auto
    with q [of p] show "\<not> selfMatch lc target (d_name c) \<and> \<not> isLargeDirectory lc (d_name c)"
      by simp
  qed
  have ordered: "discoverCompetitors lc api target location industry
            = map (toCompetitor api) (take 5 (filter (qualifies lc target) rs))"
    if "geocodeLocation api location = Some (lat, lng)"
      "textSearchRequest api
             (if truthy_str industry then the industry else extractIndustryFromName lc target) lat lng
            = Inr data"
      "ts_status data = ''OK''" "ts_results data = Some rs"
    using that searchNearbyPlaces_OK [OF that(2) that(3) that(4)]
    by (simp add: discoverCompetitors_def Let_def)
  have joe: "''Joe's Coffee Downtown''
        \<notin> set (map d_name (discoverCompetitors lc api ''Joe's Coffee'' location industry))"
    if ascii: "lowers_ascii lc"
  proof -
    obtain js where joe_shape: "discoverCompetitors lc api ''Joe's Coffee'' location industry
       = map (toCompetitor api) (take 5 (filter (qualifies lc ''Joe's Coffee'') js))"
      using discoverCompetitors_shape by blast
    have "place_name p \<noteq> ''Joe's Coffee Downtown''"
      if "p \<in> set (take 5 (filter (qualifies lc ''Joe's Coffee'') js))" for p
    proof
      assume eq: "place_name p = ''Joe's Coffee Downtown''"
      from that have "p \<in> set (filter (qualifies lc ''Joe's Coffee'') js)"
        by (rule in_set_takeD)
      then have "\<not> selfMatch lc ''Joe's Coffee'' (place_name p)"
        by (simp add: qualifies_def)
      then have "\<not> selfMatch lc ''Joe's Coffee'' ''Joe's Coffee Downtown''"
        unfolding eq .
      from this joes [OF ascii] show False by (rule notE)
    qed
    then show ?thesis
      unfolding joe_shape set_map image_image d_name_toCompetitor by (rule_tac notI) (erule imageE, metis)
  qed
  show ?thesis
  proof (intro conjI impI)
    show "length (discoverCompetitors lc api target location industry) \<le> 5" by (rule cap)
    show "list_all (\<lambda>c. \<not> selfMatch lc target (d_name c) \<and> \<not> isLargeDirectory lc (d_name c))
        (discoverCompetitors lc api target location industry)" by (rule filtered)
  next
    assume "lowers_ascii lc"
    then show "''Joe's Coffee Downtown''
        \<notin> set (map d_name (discoverCompetitors lc api ''Joe's Coffee'' location industry))"
      by (rule joe)
  next
    assume "geocodeLocation api location = Some (lat, lng)
        \<and> textSearchRequest api
             (if truthy_str industry then the industry else extractIndustryFromName lc target) lat lng
            = Inr data
        \<and> ts_status data = ''OK'' \<and> ts_results data = Some rs"
    then show "discoverCompetitors lc api target location industry
            = map (toCompetitor api) (take 5 (filter (qualifies lc target) rs))"
      using ordered by blast
  qed
qed

lemma example_qualify:
  "filter (qualifies asciiLowerCase ''Joe's Coffee'') example_results
     = [example_place ''Bean There'' ''p3'']"
proof -
  have "\<not> qualifies asciiLowerCase ''Joe's Coffee'' (example_place ''Joe's Coffee Downtown'' ''p1'')"
    by code_simp
  moreover
  have "\<not> qualifies asciiLowerCase ''Joe's Coffee'' (example_place ''Yelp Coffee Guide'' ''p2'')"
    by code_simp
  moreover have "qualifies asciiLowerCase ''Joe's Coffee'' (example_place ''Bean There'' ''p3'')"
    by code_simp
  ultimately show ?thesis by (simp add: example_results_def)
qed

theorem discovery_filters_and_caps_witness:
  "geocodeLocation example_api ''Austin'' = Some (0, 0)
   \<and> textSearchRequest example_api
        (if truthy_str None then the None
         else extractIndustryFromName asciiLowerCase ''Joe's Coffee'') 0 0
       = Inr example_response
   \<and> ts_status example_response = ''OK'' \<and> ts_results example_response = Some example_results
   \<and> lowers_ascii asciiLowerCase
   \<and> map d_name (discoverCompetitors asciiLowerCase example_api ''Joe's Coffee'' ''Austin'' None)
       = [''Bean There'']
   \<and> ''Joe's Coffee Downtown''
        \<notin> set (map d_name (discoverCompetitors asciiLowerCase example_api ''Joe's Coffee''
                  ''Austin'' None))"
proof -
  note inst = discovery_filters_and_caps [of asciiLowerCase example_api "''Joe's Coffee''"
      "''Austin''" None 0 0 example_response example_results]
  have pre: "geocodeLocation example_api ''Austin'' = Some (0, 0)
        \<and> textSearchRequest example_api
             (if truthy_str None then the None
              else extractIndustryFromName asciiLowerCase ''Joe's Coffee'') 0 0
            = Inr example_response
        \<and> ts_status example_response = ''OK'' \<and> ts_results example_response = Some example_results"
    by (simp add: geocodeLocation_def example_api_def example_response_def)
  have "geocodeLocation example_api ''Austin'' = Some (0, 0)
        \<and> textSearchRequest example_api
             (if truthy_str None then the None
              else extractIndustryFromName asciiLowerCase ''Joe's Coffee'') 0 0
            = Inr example_response
        \<and> ts_status example_response = ''OK'' \<and> ts_results example_response = Some example_results
      \<longrightarrow> discoverCompetitors asciiLowerCase example_api ''Joe's Coffee'' ''Austin'' None
            = map (toCompetitor example_api)
                (take 5 (filter (qualifies asciiLowerCase ''Joe's Coffee'') example_results))"
    by (rule conjunct1 [OF conjunct2 [OF conjunct2 [OF inst]]])
  then have "discoverCompetitors asciiLowerCase example_api ''Joe's Coffee'' ''Austin'' None
      = map (toCompetitor example_api)
          (take 5 (filter (qualifies asciiLowerCase ''Joe's Coffee'') example_results))"
    using pre by (rule mp)
  then have found: "map d_name
      (discoverCompetitors asciiLowerCase example_api ''Joe's Coffee'' ''Austin'' None)
        = [''Bean There'']"
    unfolding example_qualify by (simp add: example_place_def)
  have "lowers_ascii asciiLowerCase
      \<longrightarrow> ''Joe's Coffee Downtown''
            \<notin> set (map d_name (discoverCompetitors asciiLowerCase example_api ''Joe's Coffee''
                      ''Austin'' None))"
    by (rule conjunct2 [OF conjunct2 [OF conjunct2 [OF inst]]])
  then have absent: "''Joe's Coffee Downtown''
        \<notin> set (map d_name (discoverCompetitors asciiLowerCase example_api ''Joe's Coffee''
                  ''Austin'' None))"
    using lowers_ascii_asciiLowerCase by (rule mp)
  from pre lowers_ascii_asciiLowerCase found absent show ?thesis by (simp only: simp_thms)
qed

section \<open>Results about the effective industry\<close>






lemma updateAnalysis_ok:
  "dbFault sv (dbCalls w) = None \<Longrightarrow> analyses w aid = Some row \<Longrightarrow>
   updateAnalysis sv aid f w =
     (Inr (), w\<lparr>dbCalls := Suc (dbCalls w), analyses := (analyses w)(aid \<mapsto> f row),
                journal := journal w @ [(aid, f row)]\<rparr>)"
  by (simp add: updateAnalysis_def db_call_def)

lemma detectIndustry_adopt:
  "\<not> truthy_str (a_industry a) \<Longrightarrow> truthy_str (p_primaryType p) \<Longrightarrow> \<not> isGeneric sv (p_primaryType p)
   \<Longrightarrow> dbFault sv (dbCalls w) = None \<Longrightarrow> analyses w aid = Some row
   \<Longrightarrow> detectIndustry sv aid a p w =
        (Inr (p_primaryType p),
         w\<lparr>dbCalls := Suc (dbCalls w),
           analyses := (analyses w)(aid \<mapsto> row\<lparr>a_industry := p_primaryType p\<rparr>),
           journal := journal w @ [(aid, row\<lparr>a_industry := p_primaryType p\<rparr>)]\<rparr>)"
  by (simp add: detectIndustry_def Let_def bind_io_def return_io_def updateAnalysis_ok)

section \<open>Results about deleting an analysis\<close>

lemma deleteAnalysis_ok:
  assumes "dbFault sv (dbCalls w) = None"
    and "\<forall>e. dbFault sv (Suc (dbCalls w)) \<noteq> Some (QueryError e)"
  shows "deleteAnalysis sv ident userId w =
     (Inr (owns w ident userId),
      w\<lparr>dbCalls := Suc (Suc (dbCalls w)),
        competitors := filter (\<lambda>c. c_analysisId c \<noteq> ident) (competitors w),
        analyses := (if owns w ident userId then (analyses w)(ident := None) else analyses w)\<rparr>)"
proof (cases "dbFault sv (Suc (dbCalls w))")
  case None
  with assms(1) show ?thesis
    by (cases "analyses w ident")
      (simp_all add: deleteAnalysis_def db_call_def bind_io_def owns_def)
next
  case (Some f)
  with assms(2) have f: "f = NoHandle" by (cases f) auto
  with Some assms(1) show ?thesis
    by (cases "analyses w ident")
      (simp_all add: deleteAnalysis_def db_call_def bind_io_def owns_def)
qed

lemma deleteAnalysis_second_query_fails:
  assumes "dbFault sv (dbCalls w) = None"
    and "dbFault sv (Suc (dbCalls w)) = Some (QueryError e)"
  shows "deleteAnalysis sv ident userId w =
     (Inl e,
      w\<lparr>dbCalls := Suc (Suc (dbCalls w)),
        competitors := filter (\<lambda>c. c_analysisId c \<noteq> ident) (competitors w)\<rparr>)"
  using assms by (simp add: deleteAnalysis_def db_call_def bind_io_def throw_io_def)


text \<open>
  C9. When the database answers both queries, \<open>deleteAnalysis\<close> removes every
  competitor of the analysis, whoever asks, and removes the analysis row only when it
  belongs to the user; so for an analysis of another user it returns \<open>false\<close>, the row
  stays, and the competitors are gone. The competitors are deleted first: when the second
  query is rejected, they are already deleted and the row is untouched.
\<close>

theorem delete_analysis_not_atomic:
  "(dbFault sv (dbCalls w) = None \<and> (\<forall>e. dbFault sv (Suc (dbCalls w)) \<noteq> Some (QueryError e))
      \<longrightarrow> (\<exists>w'. deleteAnalysis sv ident userId w = (Inr (owns w ident userId), w')
            \<and> competitors w' = filter (\<lambda>c. c_analysisId c \<noteq> ident) (competitors w)
            \<and> analyses w' = (if owns w ident userId then (analyses w)(ident := None)
                              else analyses w)))
   \<and> (dbFault sv (dbCalls w) = None \<and> (\<forall>e. dbFault sv (Suc (dbCalls w)) \<noteq> Some (QueryError e))
        \<and> analyses w ident = Some row \<and> a_userId row \<noteq> userId
      \<longrightarrow> (\<exists>w'. deleteAnalysis sv ident userId w = (Inr False, w')
            \<and> analyses w' ident = Some row
            \<and> list_all (\<lambda>c. c_analysisId c \<noteq> ident) (competitors w')
            \<and> competitors w' = filter (\<lambda>c. c_analysisId c \<noteq> ident) (competitors w)))
   \<and> (dbFault sv (dbCalls w) = None \<and> dbFault sv (Suc (dbCalls w)) = Some (QueryError e)
      \<longrightarrow> (\<exists>w'. deleteAnalysis sv ident userId w = (Inl e, w')
            \<and> competitors w' = filter (\<lambda>c. c_analysisId c \<noteq> ident) (competitors w)
            \<and> analyses w' = analyses w))"
proof (intro conjI impI)
  assume "dbFault sv (dbCalls w) = None \<and> (\<forall>e. dbFault sv (Suc (dbCalls w)) \<noteq> Some (QueryError e))"
  then show "\<exists>w'. deleteAnalysis sv ident userId w = (Inr (owns w ident userId), w')
            \<and> competitors w' = filter (\<lambda>c. c_analysisId c \<noteq> ident) (competitors w)
            \<and> analyses w' = (if owns w ident userId then (analyses w)(ident := None)
                              else analyses w)"
    using deleteAnalysis_ok [of sv w ident userId] by simp
next
  assume a: "dbFault sv (dbCalls w) = None \<and> (\<forall>e. dbFault sv (Suc (dbCalls w)) \<noteq> Some (QueryError e))
        \<and> analyses w ident = Some row \<and> a_userId row \<noteq> userId"
  then have "\<not> owns w ident userId" by (simp add: owns_def)
  with a show "\<exists>w'. deleteAnalysis sv ident userId w = (Inr False, w')
            \<and> analyses w' ident = Some row
            \<and> list_all (\<lambda>c. c_analysisId c \<noteq> ident) (competitors w')
            \<and> competitors w' = filter (\<lambda>c. c_analysisId c \<noteq> ident) (competitors w)"
    using deleteAnalysis_ok [of sv w ident userId] by (simp add: list_all_iff)
next
  assume "dbFault sv (dbCalls w) = None \<and> dbFault sv (Suc (dbCalls w)) = Some (QueryError e)"
  then show "\<exists>w'. deleteAnalysis sv ident userId w = (Inl e, w')
            \<and> competitors w' = filter (\<lambda>c. c_analysisId c \<noteq> ident) (competitors w)
            \<and> analyses w' = analyses w"
    using deleteAnalysis_second_query_fails [of sv w e ident userId] by simp
qed

lemma c_analysisId_initial [simp]: "c_analysisId (initialCompetitorData aid cand) = aid"
  by (simp add: initialCompetitorData_def)

theorem delete_analysis_not_atomic_witness:
  "dbFault example_services (dbCalls crowded_world) = None
   \<and> (\<forall>e. dbFault example_services (Suc (dbCalls crowded_world)) \<noteq> Some (QueryError e))
   \<and> analyses crowded_world 1 = Some example_row \<and> a_userId example_row \<noteq> 8
   \<and> (\<exists>w'. deleteAnalysis example_services 1 8 crowded_world = (Inr False, w')
         \<and> analyses w' 1 = Some example_row
         \<and> list_all (\<lambda>c. c_analysisId c \<noteq> 1) (competitors w')
         \<and> competitors w' =
             [initialCompetitorData 2 (toCompetitor example_api (example_place ''Brew Bros'' ''p4''))])"
proof -
  have pre: "dbFault example_services (dbCalls crowded_world) = None
      \<and> (\<forall>e. dbFault example_services (Suc (dbCalls crowded_world)) \<noteq> Some (QueryError e))
      \<and> analyses crowded_world 1 = Some example_row \<and> a_userId example_row \<noteq> 8"
    by (simp add: example_services_def crowded_world_def example_world_def example_row_def
        newAnalysis_def)
  have left: "filter (\<lambda>c. c_analysisId c \<noteq> 1) (competitors crowded_world)
      = [initialCompetitorData 2 (toCompetitor example_api (example_place ''Brew Bros'' ''p4''))]"
    by (simp add: crowded_world_def)
  from pre delete_analysis_not_atomic [of example_services crowded_world 1 8 example_row]
  have "\<exists>w'. deleteAnalysis example_services 1 8 crowded_world = (Inr False, w')
            \<and> analyses w' 1 = Some example_row
            \<and> list_all (\<lambda>c. c_analysisId c \<noteq> 1) (competitors w')
            \<and> competitors w' = filter (\<lambda>c. c_analysisId c \<noteq> 1) (competitors crowded_world)"
    by blast
  with pre show ?thesis unfolding left by blast
qed


section \<open>Results about the circuit breaker\<close>

lemma execute_open_early:
  "state cb = Open \<Longrightarrow> dateNow w - lastFailureTime cb < resetTimeout cb \<Longrightarrow>
   execute dateNow fn cb w
     = (Inl (Error ''Circuit breaker is open. Service temporarily unavailable.''), cb, w)"
  by (simp add: execute_def)

lemma execute_open_late_success:
  "state cb = Open \<Longrightarrow> dateNow w - lastFailureTime cb \<ge> resetTimeout cb \<Longrightarrow>
   fn w = (Inr r, w') \<Longrightarrow>
   execute dateNow fn cb w = (Inr r, cb\<lparr>state := Closed, failures := 0\<rparr>, w')"
  by (simp add: execute_def)

lemma execute_open_late_failure:
  "state cb = Open \<Longrightarrow> dateNow w - lastFailureTime cb \<ge> resetTimeout cb \<Longrightarrow>
   fn w = (Inl e, w') \<Longrightarrow>
   execute dateNow fn cb w =
     (Inl e,
      cb\<lparr>state := (if failures cb + 1 \<ge> threshold cb then Open else HalfOpen),
         failures := failures cb + 1, lastFailureTime := dateNow w'\<rparr>, w')"
  by (simp add: execute_def Let_def)

lemma execute_closed_success:
  "state cb = Closed \<Longrightarrow> fn w = (Inr r, w') \<Longrightarrow> execute dateNow fn cb w = (Inr r, cb, w')"
  by (simp add: execute_def)

lemma execute_closed_failure:
  "state cb = Closed \<Longrightarrow> fn w = (Inl e, w') \<Longrightarrow>
   execute dateNow fn cb w =
     (Inl e,
      cb\<lparr>state := (if failures cb + 1 \<ge> threshold cb then Open else Closed),
         failures := failures cb + 1, lastFailureTime := dateNow w'\<rparr>, w')"
  by (simp add: execute_def Let_def)

lemma execute_settled:
  assumes "settled cb" "execute dateNow fn cb w = (r, cb', w')"
  shows "settled cb' \<and> threshold cb' = threshold cb"
proof (cases "state cb")
  case Closed
  with assms show ?thesis
    by (cases "fn w"; cases "fst (fn w)")
      (auto simp: execute_def Let_def settled_def split: if_splits)
next
  case Open
  with assms show ?thesis
    by (cases "fn w"; cases "fst (fn w)")
      (auto simp: execute_def Let_def settled_def split: if_splits)
next
  case HalfOpen
  with assms show ?thesis by (simp add: settled_def)
qed

lemma executeAll_settled:
  "settled cb \<Longrightarrow> executeAll dateNow fns cb w = (cb', w')
   \<Longrightarrow> settled cb' \<and> threshold cb' = threshold cb"
proof (induction fns arbitrary: cb w)
  case Nil
  then show ?case by simp
next
  case (Cons fn fns)
  obtain r cb1 w1 where step: "execute dateNow fn cb w = (r, cb1, w1)"
    by (cases "execute dateNow fn cb w") auto
  from execute_settled [OF Cons.prems(1) step] have s1: "settled cb1" "threshold cb1 = threshold cb"
    by auto
  from Cons.prems(2) step have "executeAll dateNow fns cb1 w1 = (cb', w')" by simp
  from Cons.IH [OF s1(1) this] s1(2) show ?case by simp
qed

lemma new_settled: "0 < th \<Longrightarrow> settled (newCircuitBreaker th t rt)"
  by (simp add: settled_def newCircuitBreaker_def)


text \<open>
  C10. After any sequence of calls on a new breaker with a positive threshold, the
  breaker is open exactly when its failure count has reached the threshold (and is not
  left half-open); a failure in the closed state opens it exactly when the incremented
  count reaches the threshold, a success in the closed state changes nothing. While open,
  a call made less than \<open>resetTimeout\<close> after the last failure is rejected at once, the
  wrapped function not invoked; a call made later invokes it, in the half-open state: its
  success closes the breaker and resets the count to 0, its failure is counted like any
  other.
\<close>

theorem circuit_breaker_states:
  "(0 < th \<and> executeAll dateNow fns (newCircuitBreaker th t rt) w0 = (cb', w')
      \<longrightarrow> state cb' \<noteq> HalfOpen \<and> (state cb' = Open) = (failures cb' \<ge> th))
   \<and> (state cb = Closed \<and> fn w = (Inl e, w1)
      \<longrightarrow> execute dateNow fn cb w =
           (Inl e,
            cb\<lparr>state := (if failures cb + 1 \<ge> threshold cb then Open else Closed),
               failures := failures cb + 1, lastFailureTime := dateNow w1\<rparr>, w1))
   \<and> (state cb = Closed \<and> fn w = (Inr r, w1) \<longrightarrow> execute dateNow fn cb w = (Inr r, cb, w1))
   \<and> (state cb = Open \<and> dateNow w - lastFailureTime cb < resetTimeout cb
      \<longrightarrow> execute dateNow fn cb w
           = (Inl (Error ''Circuit breaker is open. Service temporarily unavailable.''), cb, w))
   \<and> (state cb = Open \<and> dateNow w - lastFailureTime cb \<ge> resetTimeout cb \<and> fn w = (Inr r, w1)
      \<longrightarrow> execute dateNow fn cb w = (Inr r, cb\<lparr>state := Closed, failures := 0\<rparr>, w1))
   \<and> (state cb = Open \<and> dateNow w - lastFailureTime cb \<ge> resetTimeout cb \<and> fn w = (Inl e, w1)
      \<longrightarrow> execute dateNow fn cb w =
           (Inl e,
            cb\<lparr>state := (if failures cb + 1 \<ge> threshold cb then Open else HalfOpen),
               failures := failures cb + 1, lastFailureTime := dateNow w1\<rparr>, w1))"
proof -
  have reach: "state cb' \<noteq> HalfOpen \<and> (state cb' = Open) = (failures cb' \<ge> th)"
    if "0 < th" "executeAll dateNow fns (newCircuitBreaker th t rt) w0 = (cb', w')"
  proof -
    from executeAll_settled [OF new_settled [OF that(1)] that(2)]
    have "settled cb'" "threshold cb' = th" by (simp_all add: newCircuitBreaker_def)
    then show ?thesis by (simp add: settled_def)
  qed
  show ?thesis
    using reach execute_closed_failure [of cb fn w e w1 dateNow]
      execute_closed_success [of cb fn w r w1 dateNow]
      execute_open_early [of cb dateNow w fn]
      execute_open_late_success [of cb dateNow w fn r w1]
      execute_open_late_failure [of cb dateNow w fn e w1]
    by (intro conjI impI) (elim conjE, assumption | elim conjE, blast)+
qed


theorem circuit_breaker_states_witness:
  "(0 :: int) < 3
   \<and> executeAll (\<lambda>clock. clock) [failing_call, failing_call, failing_call]
        (newCircuitBreaker 3 120000 60000) 0 = (tripped_breaker, 3)
   \<and> state tripped_breaker = Open \<and> failures tripped_breaker \<ge> 3
   \<and> (\<lambda>clock. clock) (50000 :: int) - lastFailureTime tripped_breaker < resetTimeout tripped_breaker
   \<and> execute (\<lambda>clock. clock) succeeding_call tripped_breaker 50000
       = (Inl (Error ''Circuit breaker is open. Service temporarily unavailable.''),
          tripped_breaker, 50000)
   \<and> (\<lambda>clock. clock) (70000 :: int) - lastFailureTime tripped_breaker \<ge> resetTimeout tripped_breaker
   \<and> succeeding_call 70000 = (Inr (), 70001)
   \<and> execute (\<lambda>clock. clock) succeeding_call tripped_breaker 70000
       = (Inr (), tripped_breaker\<lparr>state := Closed, failures := 0\<rparr>, 70001)"
proof -
  have run: "executeAll (\<lambda>clock. clock) [failing_call, failing_call, failing_call]
        (newCircuitBreaker 3 120000 60000) 0 = (tripped_breaker, 3)"
    by (simp add: execute_def failing_call_def newCircuitBreaker_def tripped_breaker_def Let_def)
  have st: "state tripped_breaker = Open" by (simp add: tripped_breaker_def)
  have early: "(\<lambda>clock. clock) (50000 :: int) - lastFailureTime tripped_breaker
      < resetTimeout tripped_breaker"
    by (simp add: tripped_breaker_def)
  have late: "(\<lambda>clock. clock) (70000 :: int) - lastFailureTime tripped_breaker
      \<ge> resetTimeout tripped_breaker"
    by (simp add: tripped_breaker_def)
  have ok: "succeeding_call 70000 = (Inr (), 70001)" by (simp add: succeeding_call_def)
  note thm1 = circuit_breaker_states [where th = 3 and dateNow = "\<lambda>clock. clock"
      and fns = "[failing_call, failing_call, failing_call]" and t = 120000 and rt = 60000
      and w = 50000 and ?w0.0 = 0 and cb' = tripped_breaker and w' = 3 and cb = tripped_breaker
      and fn = succeeding_call]
  note thm2 = circuit_breaker_states [where th = 3 and dateNow = "\<lambda>clock. clock"
      and fns = "[failing_call, failing_call, failing_call]" and t = 120000 and rt = 60000
      and w = 70000 and ?w0.0 = 0 and cb' = tripped_breaker and w' = 3 and cb = tripped_breaker
      and fn = succeeding_call and r = "()" and ?w1.0 = 70001]
  have pos: "(0 :: int) < 3" by simp
  from thm1 pos run have reached: "failures tripped_breaker \<ge> 3"
    using st by blast
  from thm1 st early have rejected: "execute (\<lambda>clock. clock) succeeding_call tripped_breaker 50000
       = (Inl (Error ''Circuit breaker is open. Service temporarily unavailable.''),
          tripped_breaker, 50000)"
    by blast
  from thm2 st late ok have closed: "execute (\<lambda>clock. clock) succeeding_call tripped_breaker 70000
       = (Inr (), tripped_breaker\<lparr>state := Closed, failures := 0\<rparr>, 70001)"
    by blast
  from run st reached early rejected late ok closed show ?thesis by simp
qed

section \<open>Rules for assertions about runs\<close>

lemma io_cases:
  obtains (Resolve) x w' where "m w = (Inr x, w')" | (Reject) e w' where "m w = (Inl e, w')"
proof (cases "m w")
  case (Pair r w')
  then show ?thesis using that by (cases r) auto
qed

lemma hoareI:
  assumes "\<And>w x w'. P w \<Longrightarrow> m w = (Inr x, w') \<Longrightarrow> Q x w'"
    and "\<And>w e w'. P w \<Longrightarrow> m w = (Inl e, w') \<Longrightarrow> E e w'"
  shows "hoare P m Q E"
  unfolding hoare_def
proof (intro allI impI)
  fix w assume "P w"
  then show "case m w of (Inr x, w') \<Rightarrow> Q x w' | (Inl e, w') \<Rightarrow> E e w'"
    using assms by (cases rule: io_cases [of m w]) simp_all
qed

lemma hoareD_Inr: "hoare P m Q E \<Longrightarrow> P w \<Longrightarrow> m w = (Inr x, w') \<Longrightarrow> Q x w'"
  unfolding hoare_def by (drule spec [of _ w]) simp

lemma hoareD_Inl: "hoare P m Q E \<Longrightarrow> P w \<Longrightarrow> m w = (Inl e, w') \<Longrightarrow> E e w'"
  unfolding hoare_def by (drule spec [of _ w]) simp

lemma hoare_weaken:
  assumes "hoare P' m Q' E'" "\<And>w. P w \<Longrightarrow> P' w" "\<And>x w. Q' x w \<Longrightarrow> Q x w"
    "\<And>e w. E' e w \<Longrightarrow> E e w"
  shows "hoare P m Q E"
proof (rule hoareI)
  fix w x w' assume "P w" "m w = (Inr x, w')"
  then show "Q x w'" using assms(2,3) hoareD_Inr [OF assms(1)] by blast
next
  fix w e w' assume "P w" "m w = (Inl e, w')"
  then show "E e w'" using assms(2,4) hoareD_Inl [OF assms(1)] by blast
qed

lemma bind_io_Inr: "m w = (Inr x, w1) \<Longrightarrow> bind_io m f w = f x w1"
  by (simp add: bind_io_def)

lemma bind_io_Inl: "m w = (Inl e, w1) \<Longrightarrow> bind_io m f w = (Inl e, w1)"
  by (simp add: bind_io_def)

lemma catch_io_Inr: "m w = (Inr x, w1) \<Longrightarrow> catch_io m h w = (Inr x, w1)"
  by (simp add: catch_io_def)

lemma catch_io_Inl: "m w = (Inl e, w1) \<Longrightarrow> catch_io m h w = h e w1"
  by (simp add: catch_io_def)

lemma hoare_bind:
  assumes "hoare P m R E" "\<And>x. hoare (R x) (f x) Q E"
  shows "hoare P (bind_io m f) Q E"
proof (rule hoareI)
  fix w y w' assume P: "P w" and run: "bind_io m f w = (Inr y, w')"
  show "Q y w'"
  proof (cases rule: io_cases [of m w])
    case (Resolve x w1)
    with run have "f x w1 = (Inr y, w')" by (simp add: bind_io_Inr)
    with hoareD_Inr [OF assms(1) P Resolve] show ?thesis using hoareD_Inr [OF assms(2)] by blast
  next
    case (Reject e w1)
    with run show ?thesis by (simp add: bind_io_Inl)
  qed
next
  fix w e' w' assume P: "P w" and run: "bind_io m f w = (Inl e', w')"
  show "E e' w'"
  proof (cases rule: io_cases [of m w])
    case (Resolve x w1)
    with run have "f x w1 = (Inl e', w')" by (simp add: bind_io_Inr)
    with hoareD_Inr [OF assms(1) P Resolve] show ?thesis using hoareD_Inl [OF assms(2)] by blast
  next
    case (Reject e w1)
    with run have "e' = e" "w' = w1" by (simp_all add: bind_io_Inl)
    with hoareD_Inl [OF assms(1) P Reject] show ?thesis by simp
  qed
qed

lemma hoare_catch:
  assumes "hoare P m Q R" "\<And>e. hoare (R e) (h e) Q E"
  shows "hoare P (catch_io m h) Q E"
proof (rule hoareI)
  fix w y w' assume P: "P w" and run: "catch_io m h w = (Inr y, w')"
  show "Q y w'"
  proof (cases rule: io_cases [of m w])
    case (Resolve x w1)
    with run have "y = x" "w' = w1" by (simp_all add: catch_io_Inr)
    with hoareD_Inr [OF assms(1) P Resolve] show ?thesis by simp
  next
    case (Reject e w1)
    with run have "h e w1 = (Inr y, w')" by (simp add: catch_io_Inl)
    with hoareD_Inl [OF assms(1) P Reject] show ?thesis using hoareD_Inr [OF assms(2)] by blast
  qed
next
  fix w e' w' assume P: "P w" and run: "catch_io m h w = (Inl e', w')"
  show "E e' w'"
  proof (cases rule: io_cases [of m w])
    case (Resolve x w1)
    with run show ?thesis by (simp add: catch_io_Inr)
  next
    case (Reject e w1)
    with run have "h e w1 = (Inl e', w')" by (simp add: catch_io_Inl)
    with hoareD_Inl [OF assms(1) P Reject] show ?thesis using hoareD_Inl [OF assms(2)] by blast
  qed
qed

lemma hoare_return: "(\<And>w. P w \<Longrightarrow> Q x w) \<Longrightarrow> hoare P (return_io x) Q E"
  by (rule hoareI) (simp_all add: return_io_def)

lemma hoare_throw: "(\<And>w. P w \<Longrightarrow> E e w) \<Longrightarrow> hoare P (throw_io e) Q E"
  by (rule hoareI) (simp_all add: throw_io_def)

lemma keeps_weaken: "keeps False Inv m \<Longrightarrow> keeps X Inv m"
  unfolding keeps_def by (erule hoare_weaken) simp_all

lemma keeps_return: "keeps X Inv (return_io x)"
  unfolding keeps_def by (rule hoare_return)

lemma keeps_throw: "keeps True Inv (throw_io e)"
  unfolding keeps_def by (rule hoare_throw) simp

lemma keeps_bind: "keeps X Inv m \<Longrightarrow> (\<And>x. keeps X Inv (f x)) \<Longrightarrow> keeps X Inv (bind_io m f)"
  unfolding keeps_def by (rule hoare_bind)


lemma keeps_if: "(c \<Longrightarrow> keeps X Inv m) \<Longrightarrow> (\<not> c \<Longrightarrow> keeps X Inv n) \<Longrightarrow> keeps X Inv (if c then m else n)"
  by simp

lemma hoare_bind_keeps:
  assumes "keeps X Inv m" "\<And>e w. X \<Longrightarrow> Inv w \<Longrightarrow> E e w" "\<And>x. hoare Inv (f x) Q E"
  shows "hoare Inv (bind_io m f) Q E"
proof (rule hoare_bind [where R = "\<lambda>_. Inv"])
  show "hoare Inv m (\<lambda>_. Inv) E"
    using assms(1) unfolding keeps_def by (rule hoare_weaken) (simp_all add: assms(2))
  show "hoare Inv (f x) Q E" for x by (rule assms(3))
qed



lemma keeps_untouched:
  assumes "store_pred Inv" "\<And>w r w'. m w = (r, w') \<Longrightarrow> untouched w w' \<and> (X \<or> (\<exists>x. r = Inr x))"
  shows "keeps X Inv m"
  unfolding keeps_def
proof (rule hoareI)
  fix w x w' assume "Inv w" "m w = (Inr x, w')"
  with assms show "Inv w'" unfolding store_pred_def untouched_def by blast
next
  fix w e w' assume "Inv w" "m w = (Inl e, w')"
  with assms(1) assms(2) [of w "Inl e" w'] show "X \<and> Inv w'"
    unfolding store_pred_def untouched_def by blast
qed

lemma untouched_simps [simp]:
  "untouched w w"
  "untouched w (w\<lparr>calls := c\<rparr>)"
  "untouched w (w\<lparr>console := l\<rparr>)"
  "untouched w (w\<lparr>dbCalls := n\<rparr>)"
  by (simp_all add: untouched_def)

lemma keeps_call_io:
  "store_pred Inv \<Longrightarrow> X \<or> (\<exists>x. outcome = Inr x) \<Longrightarrow> keeps X Inv (call_io c outcome)"
  by (rule keeps_untouched) (auto simp: call_io_def)

lemma keeps_console_warn: "store_pred Inv \<Longrightarrow> keeps X Inv (console_warn msg e)"
  by (rule keeps_untouched) (auto simp: console_warn_def)

lemma keeps_console_error: "store_pred Inv \<Longrightarrow> keeps X Inv (console_error msg e)"
  by (rule keeps_untouched) (auto simp: console_error_def)

lemma getAnalysisById_run:
  "getAnalysisById sv ident w =
     (case dbFault sv (dbCalls w) of
        None \<Rightarrow> Inr (analyses w ident)
      | Some NoHandle \<Rightarrow> Inr None
      | Some (QueryError e) \<Rightarrow> Inl e,
      w\<lparr>dbCalls := Suc (dbCalls w)\<rparr>)"
  by (simp add: getAnalysisById_def db_call_def return_io_def throw_io_def
      split: option.splits db_fault.splits)

lemma getCompetitorsByAnalysisId_run:
  "\<exists>r. getCompetitorsByAnalysisId sv ident w = (r, w\<lparr>dbCalls := Suc (dbCalls w)\<rparr>)
       \<and> (dbFault sv (dbCalls w) = None \<longrightarrow> (\<exists>x. r = Inr x))"
  by (simp add: getCompetitorsByAnalysisId_def db_call_def return_io_def throw_io_def
      split: option.splits db_fault.splits)

lemma keeps_getAnalysisById:
  "store_pred Inv \<Longrightarrow> X \<or> no_faults sv \<Longrightarrow> keeps X Inv (getAnalysisById sv ident)"
  by (rule keeps_untouched)
    (auto simp: getAnalysisById_run no_faults_def split: option.splits db_fault.splits)

lemma keeps_getCompetitorsByAnalysisId:
  assumes "store_pred Inv" "X \<or> no_faults sv"
  shows "keeps X Inv (getCompetitorsByAnalysisId sv ident)"
proof (rule keeps_untouched [OF assms(1)])
  fix w r w' assume run: "getCompetitorsByAnalysisId sv ident w = (r, w')"
  with getCompetitorsByAnalysisId_run [of sv ident w] assms(2)
  show "untouched w w' \<and> (X \<or> (\<exists>x. r = Inr x))"
    by (auto simp: no_faults_def)
qed

section \<open>Results about the effective industry in a run\<close>

lemma updateAnalysis_run:
  "updateAnalysis sv j g w =
     (case dbFault sv (dbCalls w) of
        Some f \<Rightarrow> (Inl (fault_error f), w\<lparr>dbCalls := Suc (dbCalls w)\<rparr>)
      | None \<Rightarrow>
          (case analyses w j of
             None \<Rightarrow> (Inr (), w\<lparr>dbCalls := Suc (dbCalls w)\<rparr>)
           | Some row \<Rightarrow>
               (Inr (), w\<lparr>dbCalls := Suc (dbCalls w), analyses := (analyses w)(j \<mapsto> g row),
                          journal := journal w @ [(j, g row)]\<rparr>)))"
  by (simp add: updateAnalysis_def db_call_def throw_io_def split: option.splits db_fault.splits)

lemma createCompetitors_run:
  "\<exists>r rows. createCompetitors sv data w =
      (r, w\<lparr>dbCalls := Suc (dbCalls w), competitors := rows\<rparr>)
    \<and> (dbFault sv (dbCalls w) = None \<longrightarrow> r = Inr () \<and> rows = competitors w @ data)"
proof (cases "dbFault sv (dbCalls w)")
  case None
  then show ?thesis
    by (cases "data = []") (auto simp: createCompetitors_def db_call_def return_io_def)
next
  case (Some f)
  then show ?thesis
    by (cases f; cases "data = []")
      (auto simp: createCompetitors_def db_call_def return_io_def throw_io_def
        intro: exI [of _ "competitors w"])
qed



lemma discoverCalls_simps [simp]:
  "discoverCalls (w\<lparr>dbCalls := n\<rparr>) = discoverCalls w"
  "discoverCalls (w\<lparr>analyses := a\<rparr>) = discoverCalls w"
  "discoverCalls (w\<lparr>journal := j\<rparr>) = discoverCalls w"
  "discoverCalls (w\<lparr>competitors := cs\<rparr>) = discoverCalls w"
  "discoverCalls (w\<lparr>console := l\<rparr>) = discoverCalls w"
  "discoverCalls (w\<lparr>calls := calls w @ [c]\<rparr>)
     = discoverCalls w @ (if discoverCall c then [c] else [])"
  by (simp_all add: discoverCalls_def)

lemma storedIndustry_simps [simp]:
  "storedIndustry i (w\<lparr>dbCalls := n\<rparr>) = storedIndustry i w"
  "storedIndustry i (w\<lparr>journal := j\<rparr>) = storedIndustry i w"
  "storedIndustry i (w\<lparr>competitors := cs\<rparr>) = storedIndustry i w"
  "storedIndustry i (w\<lparr>console := l\<rparr>) = storedIndustry i w"
  "storedIndustry i (w\<lparr>calls := c\<rparr>) = storedIndustry i w"
  by (simp_all add: storedIndustry_def)

lemma storedIndustry_write:
  "analyses w j = Some row \<Longrightarrow>
   storedIndustry i (w\<lparr>analyses := (analyses w)(j \<mapsto> row')\<rparr>)
     = (if i = j then Some (a_industry row') else storedIndustry i w)"
  by (simp add: storedIndustry_def)














lemma hoare_disj:
  assumes "hoare P1 m Q E" "hoare P2 m Q E"
  shows "hoare (\<lambda>w. P1 w \<or> P2 w) m Q E"
proof (rule hoareI)
  fix w x w' assume "P1 w \<or> P2 w" "m w = (Inr x, w')"
  then show "Q x w'" using hoareD_Inr [OF assms(1)] hoareD_Inr [OF assms(2)] by blast
next
  fix w e w' assume "P1 w \<or> P2 w" "m w = (Inl e, w')"
  then show "E e w'" using hoareD_Inl [OF assms(1)] hoareD_Inl [OF assms(2)] by blast
qed














section \<open>Results about the status and the completion time in a run\<close>

lemma same_store_refl [simp]: "same_store w w"
  by (simp add: same_store_def)

lemma same_store_trans: "same_store w w1 \<Longrightarrow> same_store w1 w2 \<Longrightarrow> same_store w w2"
  by (simp add: same_store_def)

lemma same_store_untouched: "same_store w w' \<Longrightarrow> untouched w w'"
  by (simp add: same_store_def untouched_def)

lemma promise_all_map_result:
  assumes "\<And>x w. \<exists>w'. f x w = (Inr (g x), w') \<and> same_store w w'"
  shows "\<exists>w'. promise_all (map f xs) w = (Inr (map g xs), w') \<and> same_store w w'"
proof (induction xs arbitrary: w)
  case Nil
  show ?case by (simp add: return_io_def)
next
  case (Cons x xs)
  from assms [of x w] obtain w1 where 1: "f x w = (Inr (g x), w1)" "same_store w w1" by blast
  from Cons [of w1] obtain w2 where
    2: "promise_all (map f xs) w1 = (Inr (map g xs), w2)" "same_store w1 w2" by blast
  from 1 2 have "promise_all (map f (x # xs)) w = (Inr (map g (x # xs)), w2)" by simp
  with same_store_trans [OF 1(2) 2(2)] show ?case by blast
qed

lemma analyzeCompetitors_result:
  "\<exists>w'. analyzeCompetitors sv aid t ds w = (Inr (specCompetitorRecords sv aid ds), w')
        \<and> same_store w w'"
  unfolding analyzeCompetitors_def specCompetitorRecords_def
  by (rule promise_all_map_result) (rule processCompetitor_result)

lemma keeps_analyzeCompetitors:
  assumes "store_pred Inv"
  shows "keeps X Inv (analyzeCompetitors sv aid t ds)"
proof (rule keeps_untouched [OF assms])
  fix w r w' assume "analyzeCompetitors sv aid t ds w = (r, w')"
  with analyzeCompetitors_result [of sv aid t ds w]
  show "untouched w w' \<and> (X \<or> (\<exists>x. r = Inr x))"
    by (auto dest: same_store_untouched)
qed

subsection \<open>The invariant\<close>

lemma chain_ok_snoc:
  "chain_ok step s (ts @ [t]) = (chain_ok step s ts \<and> step (last (s # ts)) t)"
  by (induction ts arbitrary: s) auto

lemma rowsWritten_snoc:
  assumes "length (journal w0) \<le> length (journal w)" "journal w' = journal w @ [(j, r)]"
  shows "rowsWritten ident w0 w' = rowsWritten ident w0 w @ (if j = ident then [r] else [])"
  using assms by (simp add: rowsWritten_def)

lemma tracked_cong:
  assumes a: "analyses w' = analyses w" and j: "journal w' = journal w"
  shows "tracked ident w0 row0 s w' = tracked ident w0 row0 s w"
  unfolding tracked_def rowsWritten_def a j by (rule refl)

lemma store_pred_tracked: "store_pred (tracked ident w0 row0 s)"
  unfolding store_pred_def
proof (intro allI impI, elim conjE)
  fix w w' :: world
  assume "analyses w' = analyses w" "journal w' = journal w" "tracked ident w0 row0 s w"
  then show "tracked ident w0 row0 s w'" using tracked_cong [of w' w ident w0 row0 s] by blast
qed

lemma tracked_start: "analyses w ident = Some row \<Longrightarrow> tracked ident w row (a_status row) w"
  by (simp add: tracked_def rowsWritten_def)

lemma tracked_row:
  "tracked ident w0 row0 s w \<Longrightarrow>
   analyses w ident = Some (last (row0 # rowsWritten ident w0 w))
   \<and> a_status (last (row0 # rowsWritten ident w0 w)) = s"
  by (simp add: tracked_def)

lemma tracked_write_other:
  assumes inv: "tracked ident w0 row0 s w" and other: "j \<noteq> ident"
    and a: "analyses w' = (analyses w)(j \<mapsto> r)" and j: "journal w' = journal w @ [(j, r)]"
  shows "tracked ident w0 row0 s w'"
proof -
  from inv have len: "length (journal w0) \<le> length (journal w)"
    and pre: "take (length (journal w0)) (journal w) = journal w0"
    by (simp_all add: tracked_def)
  have rows: "rowsWritten ident w0 w' = rowsWritten ident w0 w"
    using rowsWritten_snoc [OF len j, of ident] other by simp
  have "take (length (journal w0)) (journal w') = journal w0"
    "length (journal w0) \<le> length (journal w')"
    using pre len j by simp_all
  with inv other a show ?thesis
    unfolding tracked_def rows by simp
qed

lemma tracked_write:
  assumes inv: "tracked ident w0 row0 s w"
    and a: "analyses w' = (analyses w)(ident \<mapsto> r)" and j: "journal w' = journal w @ [(ident, r)]"
    and step: "write_step (last (row0 # rowsWritten ident w0 w)) r"
  shows "tracked ident w0 row0 (a_status r) w'"
proof -
  from inv have len: "length (journal w0) \<le> length (journal w)"
    and pre: "take (length (journal w0)) (journal w) = journal w0"
    and chain: "chain_ok write_step row0 (rowsWritten ident w0 w)"
    by (simp_all add: tracked_def)
  have rows: "rowsWritten ident w0 w' = rowsWritten ident w0 w @ [r]"
    using rowsWritten_snoc [OF len j, of ident] by simp
  have "take (length (journal w0)) (journal w') = journal w0"
    "length (journal w0) \<le> length (journal w')"
    using pre len j by simp_all
  moreover have "chain_ok write_step row0 (rowsWritten ident w0 w @ [r])"
    unfolding chain_ok_snoc using chain step by simp
  ultimately show ?thesis
    unfolding tracked_def rows using a by simp
qed

lemma tracked_dbCalls [simp]:
  "tracked ident w0 row0 s (w\<lparr>dbCalls := n\<rparr>) = tracked ident w0 row0 s w"
  by (rule tracked_cong) simp_all

lemma tracked_competitors [simp]:
  "tracked ident w0 row0 s (w\<lparr>competitors := rows\<rparr>) = tracked ident w0 row0 s w"
  by (rule tracked_cong) simp_all

lemma tracked_console [simp]:
  "tracked ident w0 row0 s (w\<lparr>console := l\<rparr>) = tracked ident w0 row0 s w"
  by (rule tracked_cong) simp_all

lemma hoare_updateAnalysis_tracked:
  assumes "\<And>row. a_status row = s \<Longrightarrow> write_step row (g row) \<and> a_status (g row) = t"
  shows "hoare (tracked ident w0 row0 s) (updateAnalysis sv ident g)
           (\<lambda>_. tracked ident w0 row0 t) (\<lambda>_. tracked ident w0 row0 s)"
proof (rule hoareI)
  fix w x w'
  assume inv: "tracked ident w0 row0 s w" and run: "updateAnalysis sv ident g w = (Inr x, w')"
  let ?row = "last (row0 # rowsWritten ident w0 w)"
  from tracked_row [OF inv] have row: "analyses w ident = Some ?row" "a_status ?row = s"
    by simp_all
  from run row(1) have w': "w' = w\<lparr>dbCalls := Suc (dbCalls w),
      analyses := (analyses w)(ident \<mapsto> g ?row), journal := journal w @ [(ident, g ?row)]\<rparr>"
    by (cases "dbFault sv (dbCalls w)") (simp_all add: updateAnalysis_run)
  from assms [OF row(2)] have g: "write_step ?row (g ?row)" "a_status (g ?row) = t" by simp_all
  have "tracked ident w0 row0 (a_status (g ?row)) w'"
    by (rule tracked_write [OF inv _ _ g(1)]) (simp_all add: w')
  with g(2) show "tracked ident w0 row0 t w'" by simp
next
  fix w e w'
  assume inv: "tracked ident w0 row0 s w" and run: "updateAnalysis sv ident g w = (Inl e, w')"
  from run have "w' = w\<lparr>dbCalls := Suc (dbCalls w)\<rparr>"
    by (cases "dbFault sv (dbCalls w)"; cases "analyses w ident")
      (simp_all add: updateAnalysis_run)
  with inv show "tracked ident w0 row0 s w'" by simp
qed

lemma write_step_same:
  "a_status row' = a_status row \<Longrightarrow> a_completedAt row' = a_completedAt row
   \<Longrightarrow> write_step row row'"
  by (simp add: write_step_def actual_step_def stamp_step_def)

lemma keeps_updateAnalysis_tracked:
  assumes "\<And>row. a_status (g row) = a_status row \<and> a_completedAt (g row) = a_completedAt row"
  shows "keeps True (tracked ident w0 row0 s) (updateAnalysis sv j g)"
proof (cases "j = ident")
  case True
  have "hoare (tracked ident w0 row0 s) (updateAnalysis sv ident g)
           (\<lambda>_. tracked ident w0 row0 s) (\<lambda>_. tracked ident w0 row0 s)"
    by (rule hoare_updateAnalysis_tracked) (simp add: assms write_step_same)
  with True show ?thesis by (simp add: keeps_def)
next
  case False
  show ?thesis
    unfolding keeps_def
  proof (rule hoareI)
    fix w x w'
    assume inv: "tracked ident w0 row0 s w" and run: "updateAnalysis sv j g w = (Inr x, w')"
    show "tracked ident w0 row0 s w'"
    proof (cases "analyses w j")
      case None
      with run have "w' = w\<lparr>dbCalls := Suc (dbCalls w)\<rparr>"
        by (cases "dbFault sv (dbCalls w)") (simp_all add: updateAnalysis_run)
      with inv show ?thesis by simp
    next
      case (Some row)
      with run have w': "w' = w\<lparr>dbCalls := Suc (dbCalls w),
          analyses := (analyses w)(j \<mapsto> g row), journal := journal w @ [(j, g row)]\<rparr>"
        by (cases "dbFault sv (dbCalls w)") (simp_all add: updateAnalysis_run)
      show ?thesis
        by (rule tracked_write_other [OF inv False, of _ "g row"]) (simp_all add: w')
    qed
  next
    fix w e w'
    assume inv: "tracked ident w0 row0 s w" and run: "updateAnalysis sv j g w = (Inl e, w')"
    from run have "w' = w\<lparr>dbCalls := Suc (dbCalls w)\<rparr>"
      by (cases "dbFault sv (dbCalls w)"; cases "analyses w j")
        (simp_all add: updateAnalysis_run)
    with inv show "True \<and> tracked ident w0 row0 s w'" by simp
  qed
qed

lemma keeps_saveCompetitors_tracked:
  "keeps True (tracked ident w0 row0 s) (saveCompetitors sv rows)"
  unfolding keeps_def
proof (rule hoareI)
  fix w x w'
  assume inv: "tracked ident w0 row0 s w" and run: "saveCompetitors sv rows w = (Inr x, w')"
  then show "tracked ident w0 row0 s w'"
    using createCompetitors_run [of sv rows w]
    by (auto simp: saveCompetitors_def return_io_def split: if_splits)
next
  fix w e w'
  assume inv: "tracked ident w0 row0 s w" and run: "saveCompetitors sv rows w = (Inl e, w')"
  then show "True \<and> tracked ident w0 row0 s w'"
    using createCompetitors_run [of sv rows w]
    by (auto simp: saveCompetitors_def return_io_def split: if_splits)
qed

subsection \<open>The stages keep the invariant\<close>

lemma keeps_tracked_analyzeTargetSeo:
  "keeps True (tracked ident w0 row0 s) (analyzeTargetSeo sv j a)"
  unfolding analyzeTargetSeo_def
  by (intro keeps_if keeps_bind keeps_return keeps_call_io [OF store_pred_tracked]
      keeps_updateAnalysis_tracked) simp_all

lemma keeps_tracked_analyzePresence:
  "keeps True (tracked ident w0 row0 s) (analyzePresence sv j a)"
  unfolding analyzePresence_def
  by (intro keeps_if keeps_bind keeps_return keeps_call_io [OF store_pred_tracked]
      keeps_updateAnalysis_tracked) simp_all

lemma keeps_tracked_detectIndustry:
  "keeps True (tracked ident w0 row0 s) (detectIndustry sv j a p)"
  unfolding detectIndustry_def Let_def
  by (intro keeps_if keeps_bind keeps_return keeps_updateAnalysis_tracked) simp_all

lemma keeps_tracked_awaitDiscoverCompetitors:
  "keeps True (tracked ident w0 row0 s) (awaitDiscoverCompetitors sv n l i)"
  unfolding awaitDiscoverCompetitors_def
  by (rule keeps_call_io [OF store_pred_tracked]) simp

lemma keeps_tracked_generateContent:
  "keeps True (tracked ident w0 row0 s) (generateContent sv a cs ty)"
proof (cases a)
  case None
  show ?thesis
    unfolding generateContent_def Let_def None
    by (intro keeps_if keeps_bind keeps_return keeps_throw keeps_call_io [OF store_pred_tracked]
        | simp)+
next
  case (Some row)
  show ?thesis
    unfolding generateContent_def Let_def Some
    by (intro keeps_if keeps_bind keeps_return keeps_call_io [OF store_pred_tracked]
        keeps_updateAnalysis_tracked | simp)+
qed


lemma keeps_case_option:
  "keeps X Inv n \<Longrightarrow> (\<And>a. keeps X Inv (f a))
   \<Longrightarrow> keeps X Inv (case x of None \<Rightarrow> n | Some a \<Rightarrow> f a)"
  by (cases x) simp_all

lemma keeps_hoare:
  "keeps X Inv m \<Longrightarrow> (\<And>w. Inv w \<Longrightarrow> E w) \<Longrightarrow> hoare Inv m (\<lambda>_. Inv) (\<lambda>_. E)"
  unfolding keeps_def by (erule hoare_weaken) simp_all

lemma status_write_tracked:
  assumes "actual_step s t" "s \<noteq> Completed" "t \<noteq> Completed"
  shows "hoare (tracked ident w0 row0 s) (updateAnalysis sv ident (\<lambda>row. row\<lparr>a_status := t\<rparr>))
           (\<lambda>_. tracked ident w0 row0 t) (\<lambda>_. tracked ident w0 row0 s)"
  by (rule hoare_updateAnalysis_tracked) (simp add: write_step_def stamp_step_def assms)

lemma final_write_tracked:
  "hoare (tracked ident w0 row0 Analyzing)
     (updateAnalysis sv ident
        (\<lambda>row. row\<lparr>a_generatedBlogPost := b, a_generatedAdCopy := c,
                   a_status := Completed, a_completedAt := Some t\<rparr>))
     (\<lambda>_. tracked ident w0 row0 Completed) (\<lambda>_. tracked ident w0 row0 Analyzing)"
  by (rule hoare_updateAnalysis_tracked)
    (simp add: write_step_def stamp_step_def actual_step_def)

lemma collectingStages_tracked:
  "hoare (tracked ident w0 row0 Pending) (collectingStages sv ident)
     (\<lambda>_. tracked ident w0 row0 Collecting)
     (\<lambda>_ w. tracked ident w0 row0 Pending w \<or> tracked ident w0 row0 Collecting w)"
  unfolding collectingStages_def
proof (rule hoare_bind [where R = "\<lambda>_. tracked ident w0 row0 Collecting"])
  show "hoare (tracked ident w0 row0 Pending)
      (updateAnalysis sv ident (\<lambda>row. row\<lparr>a_status := Collecting\<rparr>))
      (\<lambda>_. tracked ident w0 row0 Collecting)
      (\<lambda>_ w. tracked ident w0 row0 Pending w \<or> tracked ident w0 row0 Collecting w)"
    by (rule hoare_weaken [OF status_write_tracked [of Pending Collecting]])
      (auto simp: actual_step_def)
next
  fix u :: unit
  have "keeps True (tracked ident w0 row0 Collecting)
     (bind_io (getAnalysisById sv ident) (\<lambda>found.
      case found of
        None \<Rightarrow> throw_io (Error ''Analysis not found'')
      | Some analysis \<Rightarrow>
      bind_io (analyzeTargetSeo sv ident analysis) (\<lambda>targetSeoData.
      bind_io (analyzePresence sv ident analysis) (\<lambda>presenceData.
      bind_io (detectIndustry sv ident analysis presenceData) (\<lambda>detectedIndustry.
      bind_io (awaitDiscoverCompetitors sv (a_businessName analysis) (a_businessLocation analysis)
                 (str_or_null detectedIndustry)) (\<lambda>discoveredCompetitors.
      bind_io (analyzeCompetitors sv ident targetSeoData discoveredCompetitors) (\<lambda>competitorDataList.
      bind_io (saveCompetitors sv competitorDataList) (\<lambda>_.
      return_io analysis))))))))"
    by (intro keeps_bind keeps_case_option keeps_throw keeps_return
        keeps_getAnalysisById [OF store_pred_tracked]
        keeps_tracked_analyzeTargetSeo keeps_tracked_analyzePresence keeps_tracked_detectIndustry
        keeps_tracked_awaitDiscoverCompetitors keeps_analyzeCompetitors [OF store_pred_tracked]
        keeps_saveCompetitors_tracked) simp
  then show "hoare (tracked ident w0 row0 Collecting)
     (bind_io (getAnalysisById sv ident) (\<lambda>found.
      case found of
        None \<Rightarrow> throw_io (Error ''Analysis not found'')
      | Some analysis \<Rightarrow>
      bind_io (analyzeTargetSeo sv ident analysis) (\<lambda>targetSeoData.
      bind_io (analyzePresence sv ident analysis) (\<lambda>presenceData.
      bind_io (detectIndustry sv ident analysis presenceData) (\<lambda>detectedIndustry.
      bind_io (awaitDiscoverCompetitors sv (a_businessName analysis) (a_businessLocation analysis)
                 (str_or_null detectedIndustry)) (\<lambda>discoveredCompetitors.
      bind_io (analyzeCompetitors sv ident targetSeoData discoveredCompetitors) (\<lambda>competitorDataList.
      bind_io (saveCompetitors sv competitorDataList) (\<lambda>_.
      return_io analysis))))))))
     (\<lambda>_. tracked ident w0 row0 Collecting)
     (\<lambda>_ w. tracked ident w0 row0 Pending w \<or> tracked ident w0 row0 Collecting w)"
    by (rule keeps_hoare) simp
qed

lemma analyzingStages_tracked:
  "hoare (tracked ident w0 row0 Collecting) (analyzingStages sv ident a)
     (\<lambda>_. tracked ident w0 row0 Completed)
     (\<lambda>_ w. tracked ident w0 row0 Collecting w \<or> tracked ident w0 row0 Analyzing w)"
  unfolding analyzingStages_def
proof (rule hoare_bind [where R = "\<lambda>_. tracked ident w0 row0 Analyzing"])
  show "hoare (tracked ident w0 row0 Collecting)
      (updateAnalysis sv ident (\<lambda>row. row\<lparr>a_status := Analyzing\<rparr>))
      (\<lambda>_. tracked ident w0 row0 Analyzing)
      (\<lambda>_ w. tracked ident w0 row0 Collecting w \<or> tracked ident w0 row0 Analyzing w)"
    by (rule hoare_weaken [OF status_write_tracked [of Collecting Analyzing]])
      (auto simp: actual_step_def)
next
  fix u :: unit
  let ?E = "\<lambda>w. tracked ident w0 row0 Collecting w \<or> tracked ident w0 row0 Analyzing w"
  have last_write: "hoare (tracked ident w0 row0 Analyzing)
     (updateAnalysis sv ident
        (\<lambda>row. row\<lparr>a_generatedBlogPost := b, a_generatedAdCopy := c,
                   a_status := Completed, a_completedAt := Some t\<rparr>))
     (\<lambda>_. tracked ident w0 row0 Completed) (\<lambda>_. ?E)" for b c t
    by (rule hoare_weaken [OF final_write_tracked]) auto
  show "hoare (tracked ident w0 row0 Analyzing)
     (bind_io (getAnalysisById sv ident) (\<lambda>updatedAnalysis.
      bind_io (getCompetitorsByAnalysisId sv ident) (\<lambda>savedCompetitors.
      bind_io (call_io CallAIInsights (generateAIInsights sv updatedAnalysis savedCompetitors)) (\<lambda>aiInsights.
      bind_io (updateAnalysis sv ident
                 (\<lambda>row. row\<lparr>a_overallAnalysis := Some (ai_overallAnalysis aiInsights),
                            a_strengths := Some (ai_strengths aiInsights),
                            a_weaknesses := Some (ai_weaknesses aiInsights),
                            a_opportunities := Some (ai_opportunities aiInsights),
                            a_recommendations := Some (ai_recommendations aiInsights),
                            a_industry := (if truthy_str (ai_detectedIndustry aiInsights)
                                           then ai_detectedIndustry aiInsights
                                           else a_industry a)\<rparr>)) (\<lambda>_.
      bind_io (getAnalysisById sv ident) (\<lambda>finalAnalysis.
      bind_io (generateContent sv finalAnalysis savedCompetitors All) (\<lambda>contentResult.
      updateAnalysis sv ident
        (\<lambda>row. row\<lparr>a_generatedBlogPost := fst contentResult,
                   a_generatedAdCopy := snd contentResult,
                   a_status := Completed,
                   a_completedAt := Some (now sv)\<rparr>))))))))
     (\<lambda>_. tracked ident w0 row0 Completed) (\<lambda>_. ?E)"
    by (intro hoare_bind_keeps [where X = True] last_write
        keeps_getAnalysisById [OF store_pred_tracked]
        keeps_getCompetitorsByAnalysisId [OF store_pred_tracked]
        keeps_call_io [OF store_pred_tracked] keeps_updateAnalysis_tracked
        keeps_tracked_generateContent) simp_all
qed

lemma pipelineBody_tracked:
  "hoare (tracked ident w0 row0 Pending) (pipelineBody sv ident)
     (\<lambda>_. tracked ident w0 row0 Completed)
     (\<lambda>_ w. tracked ident w0 row0 Pending w \<or> tracked ident w0 row0 Collecting w
        \<or> tracked ident w0 row0 Analyzing w)"
  unfolding pipelineBody_def
proof (rule hoare_bind [where R = "\<lambda>_. tracked ident w0 row0 Collecting"])
  show "hoare (tracked ident w0 row0 Pending) (collectingStages sv ident)
     (\<lambda>_. tracked ident w0 row0 Collecting)
     (\<lambda>_ w. tracked ident w0 row0 Pending w \<or> tracked ident w0 row0 Collecting w
        \<or> tracked ident w0 row0 Analyzing w)"
    by (rule hoare_weaken [OF collectingStages_tracked]) auto
next
  fix a
  show "hoare (tracked ident w0 row0 Collecting) (analyzingStages sv ident a)
     (\<lambda>_. tracked ident w0 row0 Completed)
     (\<lambda>_ w. tracked ident w0 row0 Pending w \<or> tracked ident w0 row0 Collecting w
        \<or> tracked ident w0 row0 Analyzing w)"
    by (rule hoare_weaken [OF analyzingStages_tracked]) auto
qed

text \<open>The handler of the \<open>catch\<close> block, from a status that is not final.\<close>

lemma handler_tracked:
  assumes "s = Pending \<or> s = Collecting \<or> s = Analyzing"
  shows "hoare (tracked ident w0 row0 s)
     (bind_io (console_error ''[Analysis] Error'' err) (\<lambda>_.
      bind_io (updateAnalysis sv ident (\<lambda>row. row\<lparr>a_status := Failed\<rparr>)) (\<lambda>_.
      throw_io err)))
     Q (\<lambda>_ w. tracked ident w0 row0 s w \<or> tracked ident w0 row0 Failed w)"
proof (rule hoare_bind_keeps [OF keeps_console_error [OF store_pred_tracked, where X = False]])
  fix u :: unit
  show "hoare (tracked ident w0 row0 s)
     (bind_io (updateAnalysis sv ident (\<lambda>row. row\<lparr>a_status := Failed\<rparr>)) (\<lambda>_. throw_io err))
     Q (\<lambda>_ w. tracked ident w0 row0 s w \<or> tracked ident w0 row0 Failed w)"
  proof (rule hoare_bind [where R = "\<lambda>_. tracked ident w0 row0 Failed"])
    show "hoare (tracked ident w0 row0 s)
        (updateAnalysis sv ident (\<lambda>row. row\<lparr>a_status := Failed\<rparr>))
        (\<lambda>_. tracked ident w0 row0 Failed)
        (\<lambda>_ w. tracked ident w0 row0 s w \<or> tracked ident w0 row0 Failed w)"
      using assms
      by - (rule hoare_weaken [OF status_write_tracked [of s Failed]],
        auto simp: actual_step_def)
  next
    fix v :: unit
    show "hoare (tracked ident w0 row0 Failed) (throw_io err) Q
        (\<lambda>_ w. tracked ident w0 row0 s w \<or> tracked ident w0 row0 Failed w)"
      by (rule hoare_throw) simp
  qed
qed simp

lemma runCompetitiveAnalysis_tracked:
  "hoare (tracked ident w0 row0 Pending) (runCompetitiveAnalysis sv ident)
     (\<lambda>_. tracked ident w0 row0 Completed)
     (\<lambda>_ w. tracked ident w0 row0 Pending w \<or> tracked ident w0 row0 Collecting w
        \<or> tracked ident w0 row0 Analyzing w \<or> tracked ident w0 row0 Failed w)"
  unfolding runCompetitiveAnalysis_def
proof (rule hoare_catch [OF pipelineBody_tracked])
  fix err
  let ?h = "bind_io (console_error ''[Analysis] Error'' err) (\<lambda>_.
      bind_io (updateAnalysis sv ident (\<lambda>row. row\<lparr>a_status := Failed\<rparr>)) (\<lambda>_.
      throw_io err))"
  let ?E = "\<lambda>w. tracked ident w0 row0 Pending w \<or> tracked ident w0 row0 Collecting w
        \<or> tracked ident w0 row0 Analyzing w \<or> tracked ident w0 row0 Failed w"
  have one: "hoare (tracked ident w0 row0 s) ?h (\<lambda>_. tracked ident w0 row0 Completed) (\<lambda>_. ?E)"
    if "s = Pending \<or> s = Collecting \<or> s = Analyzing" for s
    using that by - (rule hoare_weaken [OF handler_tracked [of s]], auto)
  show "hoare (\<lambda>w. tracked ident w0 row0 Pending w \<or> tracked ident w0 row0 Collecting w
        \<or> tracked ident w0 row0 Analyzing w) ?h
      (\<lambda>_. tracked ident w0 row0 Completed) (\<lambda>_. ?E)"
    by (intro hoare_disj one) simp_all
qed


subsection \<open>Chains of writes\<close>

lemma chain_status:
  "chain_ok write_step row0 rows \<Longrightarrow> chain_ok actual_step (a_status row0) (map a_status rows)"
  by (induction rows arbitrary: row0) (auto simp: write_step_def)

lemma chain_stamp: "chain_ok write_step row0 rows \<Longrightarrow> chain_ok stamp_step row0 rows"
  by (induction rows arbitrary: row0) (auto simp: write_step_def)

lemma write_step_completedAt_ok:
  "write_step row row' \<Longrightarrow> completedAt_ok row \<Longrightarrow> completedAt_ok row'"
  by (cases "a_status row"; cases "a_status row'")
    (simp_all add: write_step_def stamp_step_def actual_step_def completedAt_ok_def)

lemma chain_completedAt_ok:
  "chain_ok write_step row0 rows \<Longrightarrow> completedAt_ok row0
   \<Longrightarrow> list_all completedAt_ok rows \<and> completedAt_ok (last (row0 # rows))"
proof (induction rows arbitrary: row0)
  case Nil
  then show ?case by simp
next
  case (Cons r rows)
  from Cons.prems have "completedAt_ok r" "chain_ok write_step r rows"
    by (auto intro: write_step_completedAt_ok)
  with Cons.IH [of r] show ?case by simp
qed

lemma chain_to_completed:
  "chain_ok actual_step s h \<Longrightarrow> last (s # h) = Completed \<Longrightarrow>
   remdups_adj (s # h) =
     (case s of Pending \<Rightarrow> [Pending, Collecting, Analyzing, Completed]
      | Collecting \<Rightarrow> [Collecting, Analyzing, Completed]
      | Analyzing \<Rightarrow> [Analyzing, Completed]
      | Completed \<Rightarrow> [Completed]
      | Failed \<Rightarrow> [])"
proof (induction h arbitrary: s)
  case Nil
  then show ?case by simp
next
  case (Cons t h)
  from Cons.prems have step: "actual_step s t" and rest: "chain_ok actual_step t h"
    and "last (t # h) = Completed" by simp_all
  from Cons.IH [OF rest this(3)] step show ?case
    by (cases s; cases t) (simp_all add: actual_step_def)
qed

lemma chain_completed_stays:
  "chain_ok actual_step s h \<Longrightarrow> Completed \<in> set (s # h) \<Longrightarrow> last (s # h) = Completed"
proof (induction h arbitrary: s)
  case Nil
  then show ?case by simp
next
  case (Cons t h)
  from Cons.prems have step: "actual_step s t" and rest: "chain_ok actual_step t h" by simp_all
  show ?case
  proof (cases "s = Completed")
    case True
    with step have "t = Completed" by (simp add: actual_step_def)
    with Cons.IH [OF rest] show ?thesis by simp
  next
    case False
    with Cons.prems(2) have "Completed \<in> set (t # h)" by auto
    with Cons.IH [OF rest] show ?thesis by simp
  qed
qed

lemma last_status: "last (a_status row0 # map a_status rows) = a_status (last (row0 # rows))"
  by (induction rows arbitrary: row0) simp_all

subsection \<open>A run of the pipeline\<close>

lemma run_tracked:
  assumes "analyses w ident = Some row" "a_status row = Pending"
    and "runCompetitiveAnalysis sv ident w = (r, w')"
  shows "\<exists>s. tracked ident w row s w'
      \<and> ((\<exists>x. r = Inr x) \<longrightarrow> s = Completed) \<and> ((\<exists>e. r = Inl e) \<longrightarrow> s \<noteq> Completed)"
proof -
  from tracked_start [OF assms(1)] assms(2) have start: "tracked ident w row Pending w" by simp
  show ?thesis
  proof (cases r)
    case (Inr x)
    with assms(3) have "runCompetitiveAnalysis sv ident w = (Inr x, w')" by simp
    from hoareD_Inr [OF runCompetitiveAnalysis_tracked start this] Inr show ?thesis by auto
  next
    case (Inl e)
    with assms(3) have "runCompetitiveAnalysis sv ident w = (Inl e, w')" by simp
    from hoareD_Inl [OF runCompetitiveAnalysis_tracked start this] Inl show ?thesis by auto
  qed
qed

lemma tracked_history:
  assumes "tracked ident w row s w'"
  shows "chain_ok actual_step (a_status row) (statusHistory ident w w')"
    and "map_option a_status (analyses w' ident)
      = Some (last (a_status row # statusHistory ident w w'))"
    and "last (a_status row # statusHistory ident w w') = s"
    and "chain_ok stamp_step row (rowsWritten ident w w')"
    and "completedAt_ok row \<Longrightarrow> list_all completedAt_ok (rowsWritten ident w w')
      \<and> (\<exists>row'. analyses w' ident = Some row' \<and> completedAt_ok row')"
proof -
  from assms have row: "analyses w' ident = Some (last (row # rowsWritten ident w w'))"
    and s: "a_status (last (row # rowsWritten ident w w')) = s"
    and chain: "chain_ok write_step row (rowsWritten ident w w')"
    by (simp_all add: tracked_def)
  show "chain_ok actual_step (a_status row) (statusHistory ident w w')"
    unfolding statusHistory_def by (rule chain_status [OF chain])
  show "map_option a_status (analyses w' ident)
      = Some (last (a_status row # statusHistory ident w w'))"
    unfolding statusHistory_def last_status row by simp
  show "last (a_status row # statusHistory ident w w') = s"
    unfolding statusHistory_def last_status by (rule s)
  show "chain_ok stamp_step row (rowsWritten ident w w')"
    by (rule chain_stamp [OF chain])
  show "list_all completedAt_ok (rowsWritten ident w w')
      \<and> (\<exists>row'. analyses w' ident = Some row' \<and> completedAt_ok row')"
    if "completedAt_ok row"
    using chain_completedAt_ok [OF chain that] row by simp
qed

subsection \<open>A run started by \<open>analysis.create\<close>\<close>

lemma createAnalysis_run:
  "createAnalysis sv data w = (Inr i, w1) \<Longrightarrow>
   i = nextAnalysisId w \<and> analyses w1 = (analyses w)(i \<mapsto> data\<lparr>a_id := i\<rparr>)
   \<and> journal w1 = journal w \<and> competitors w1 = competitors w"
  by (cases "dbFault sv (dbCalls w)")
    (auto simp: createAnalysis_def db_call_def throw_io_def split: db_fault.splits)

lemma rowsWritten_from:
  "journal w1 = journal w \<Longrightarrow> rowsWritten i w w' = rowsWritten i w1 w'"
  by (simp add: rowsWritten_def)

lemma rowsWritten_to:
  "journal w' = journal w2 \<Longrightarrow> rowsWritten i w w' = rowsWritten i w w2"
  by (simp add: rowsWritten_def)

lemma analysis_create_run:
  assumes "analysis_create sv u input w = (Inr (i, st), w')"
  shows "st = Pending \<and> i = nextAnalysisId w
    \<and> (\<exists>w1 r2 w2. journal w1 = journal w
          \<and> analyses w1 i
              = Some ((newAnalysis (case u of Some x \<Rightarrow> x | None \<Rightarrow> 0) input)\<lparr>a_id := i\<rparr>)
          \<and> runCompetitiveAnalysis sv i w1 = (r2, w2)
          \<and> analyses w' = analyses w2 \<and> journal w' = journal w2
          \<and> competitors w' = competitors w2)"
proof -
  let ?data = "newAnalysis (case u of Some x \<Rightarrow> x | None \<Rightarrow> 0) input"
  obtain r1 w1 where c: "createAnalysis sv ?data w = (r1, w1)"
    by (cases "createAnalysis sv ?data w")
  from assms c obtain i' where r1: "r1 = Inr i'"
    by (cases r1) (auto simp: analysis_create_def Let_def bind_io_def)
  obtain r2 w2 where run: "runCompetitiveAnalysis sv i' w1 = (r2, w2)"
    by (cases "runCompetitiveAnalysis sv i' w1")
  from assms c r1 run have res: "st = Pending" "i = i'"
    and w': "analyses w' = analyses w2 \<and> journal w' = journal w2
      \<and> competitors w' = competitors w2"
    by (cases r2; auto simp: analysis_create_def Let_def bind_io_def catch_io_def return_io_def
        console_error_def)+
  from createAnalysis_run [OF c [unfolded r1]] res(2)
  have "i = nextAnalysisId w" "journal w1 = journal w" "analyses w1 i = Some (?data\<lparr>a_id := i\<rparr>)"
    by simp_all
  with res run w' show ?thesis by blast
qed

lemma newAnalysis_fresh:
  "a_status ((newAnalysis userId input)\<lparr>a_id := i\<rparr>) = Pending"
  "a_completedAt ((newAnalysis userId input)\<lparr>a_id := i\<rparr>) = None"
  "completedAt_ok ((newAnalysis userId input)\<lparr>a_id := i\<rparr>)"
  by (simp_all add: newAnalysis_def completedAt_ok_def)

lemma analysis_create_tracked:
  assumes "analysis_create sv u input w = (Inr (i, st), w')"
  shows "st = Pending \<and> i = nextAnalysisId w
     \<and> chain_ok actual_step Pending (statusHistory i w w')
     \<and> map_option a_status (analyses w' i) = Some (last (Pending # statusHistory i w w'))
     \<and> list_all completedAt_ok (rowsWritten i w w')
     \<and> (\<exists>row'. analyses w' i = Some row' \<and> completedAt_ok row')"
proof -
  let ?row = "(newAnalysis (case u of Some x \<Rightarrow> x | None \<Rightarrow> 0) input)\<lparr>a_id := i\<rparr>"
  from analysis_create_run [OF assms] obtain w1 r2 w2 where
    res: "st = Pending" "i = nextAnalysisId w" and j1: "journal w1 = journal w"
    and row: "analyses w1 i = Some ?row"
    and run: "runCompetitiveAnalysis sv i w1 = (r2, w2)"
    and w': "analyses w' = analyses w2" "journal w' = journal w2"
    by blast
  have pending: "a_status ?row = Pending" and ok: "completedAt_ok ?row"
    by (rule newAnalysis_fresh)+
  from run_tracked [OF row pending run] obtain s where "tracked i w1 ?row s w2" by blast
  then have t: "tracked i w1 ?row s w'"
    using tracked_cong [OF w', of i w1 ?row s] by simp
  have rows: "rowsWritten i w w' = rowsWritten i w1 w'"
    by (rule rowsWritten_from [OF j1])
  then have hist: "statusHistory i w w' = statusHistory i w1 w'"
    by (simp add: statusHistory_def)
  from tracked_history(1,2) [OF t] tracked_history(5) [OF t ok] res
  show ?thesis unfolding rows hist pending by simp
qed


lemma actual_step_claimed:
  "actual_step s t = (claimed_step s t \<or> (s = Pending \<and> t = Failed))"
  by (auto simp: actual_step_def claimed_step_def)

text \<open>
  C3. In a run of the pipeline on a stored row whose status is \<open>pending\<close>, every write
  of the row makes a transition of \<open>actual_step\<close>: the status stays as it is, moves one
  step forward along pending, collecting, analyzing, completed, or moves to \<open>failed\<close>
  from pending, collecting or analyzing; the stored status is the last one written; a
  run that resolves has passed through collecting, analyzing and completed, in this
  order; a run that rejects has never written \<open>completed\<close>; nothing follows \<open>completed\<close>
  or \<open>failed\<close> but the same status. \<open>actual_step\<close> is the relation of the specification
  with one more transition, from pending to failed. The same holds of the run that
  \<open>analysis.create\<close> starts on the record it has created.
\<close>

theorem status_moves_forward:
  "analyses w ident = Some row \<Longrightarrow> a_status row = Pending
   \<Longrightarrow> runCompetitiveAnalysis sv ident w = (r, w') \<Longrightarrow>
     chain_ok actual_step Pending (statusHistory ident w w')
   \<and> map_option a_status (analyses w' ident) = Some (last (Pending # statusHistory ident w w'))
   \<and> ((\<exists>x. r = Inr x)
        \<longrightarrow> remdups_adj (Pending # statusHistory ident w w')
              = [Pending, Collecting, Analyzing, Completed])
   \<and> ((\<exists>e. r = Inl e) \<longrightarrow> Completed \<notin> set (statusHistory ident w w'))
   \<and> actual_step s t = (claimed_step s t \<or> (s = Pending \<and> t = Failed))
   \<and> (actual_step Completed t \<longrightarrow> t = Completed)
   \<and> (actual_step Failed t \<longrightarrow> t = Failed)
   \<and> (analysis_create sv u input w0 = (Inr (i, st), w0')
        \<longrightarrow> st = Pending \<and> chain_ok actual_step Pending (statusHistory i w0 w0')
            \<and> map_option a_status (analyses w0' i)
                = Some (last (Pending # statusHistory i w0 w0')))"
proof -
  assume row: "analyses w ident = Some row" and pending: "a_status row = Pending"
    and run: "runCompetitiveAnalysis sv ident w = (r, w')"
  from run_tracked [OF row pending run] obtain s' where t: "tracked ident w row s' w'"
    and ends: "(\<exists>x. r = Inr x) \<longrightarrow> s' = Completed" "(\<exists>e. r = Inl e) \<longrightarrow> s' \<noteq> Completed"
    by blast
  note h = tracked_history(1-3) [OF t, unfolded pending]
  have resolved: "remdups_adj (Pending # statusHistory ident w w')
      = [Pending, Collecting, Analyzing, Completed]" if "\<exists>x. r = Inr x"
    using chain_to_completed [OF h(1)] h(3) ends(1) that by simp
  have rejected: "Completed \<notin> set (statusHistory ident w w')" if "\<exists>e. r = Inl e"
  proof
    assume "Completed \<in> set (statusHistory ident w w')"
    then have "Completed \<in> set (Pending # statusHistory ident w w')" by simp
    from chain_completed_stays [OF h(1) this] h(3) ends(2) that show False by simp
  qed
  have created: "st = Pending \<and> chain_ok actual_step Pending (statusHistory i w0 w0')
      \<and> map_option a_status (analyses w0' i) = Some (last (Pending # statusHistory i w0 w0'))"
    if "analysis_create sv u input w0 = (Inr (i, st), w0')"
    using analysis_create_tracked [OF that] by blast
  have final: "actual_step Completed t \<longrightarrow> t = Completed" "actual_step Failed t \<longrightarrow> t = Failed"
    by (auto simp: actual_step_def)
  from h(1,2) resolved rejected actual_step_claimed [of s t] final created
  show ?thesis by blast
qed

lemma example_row_pending: "a_status example_row = Pending"
  by (simp add: example_row_def newAnalysis_def)

lemma example_world_row: "analyses example_world 1 = Some example_row"
  by (simp add: example_world_def)

lemma example_full_run_resolves:
  "(case fst (runCompetitiveAnalysis example_services 1 example_world) of
      Inr _ \<Rightarrow> True | Inl _ \<Rightarrow> False)"
  by code_simp

theorem status_moves_forward_witness:
  "analyses example_world 1 = Some example_row \<and> a_status example_row = Pending
   \<and> remdups_adj (Pending # statusHistory 1 example_world
        (snd (runCompetitiveAnalysis example_services 1 example_world)))
       = [Pending, Collecting, Analyzing, Completed]
   \<and> map_option a_status
        (analyses (snd (runCompetitiveAnalysis example_services 1 example_world)) 1)
       = Some Completed"
proof -
  from example_full_run_resolves
  have resolves: "\<exists>x. fst (runCompetitiveAnalysis example_services 1 example_world) = Inr x"
    by (cases "fst (runCompetitiveAnalysis example_services 1 example_world)") simp_all
  note inst = status_moves_forward [OF example_world_row example_row_pending,
      of example_services "fst (runCompetitiveAnalysis example_services 1 example_world)"
        "snd (runCompetitiveAnalysis example_services 1 example_world)"]
  from inst resolves
  have path: "remdups_adj (Pending # statusHistory 1 example_world
        (snd (runCompetitiveAnalysis example_services 1 example_world)))
       = [Pending, Collecting, Analyzing, Completed]"
    by simp
  from inst have "map_option a_status
        (analyses (snd (runCompetitiveAnalysis example_services 1 example_world)) 1)
       = Some (last (remdups_adj (Pending # statusHistory 1 example_world
            (snd (runCompetitiveAnalysis example_services 1 example_world)))))"
    by (simp only: last_remdups_adj prod.collapse simp_thms)
  with path have "map_option a_status
        (analyses (snd (runCompetitiveAnalysis example_services 1 example_world)) 1)
       = Some Completed"
    by simp
  with example_world_row example_row_pending path show ?thesis by (intro conjI)
qed

text \<open>
  The transition that the specification leaves out: the first query of the run, the
  write of \<open>collecting\<close>, is rejected by the database, and the handler's write of
  \<open>failed\<close> is accepted. The only status written is \<open>failed\<close>, on a row that was
  \<open>pending\<close>.
\<close>

theorem pending_to_failed_counterexample:
  "analyses example_world 1 = Some example_row \<and> a_status example_row = Pending
   \<and> statusHistory 1 example_world (snd (runCompetitiveAnalysis flaky_services 1 example_world))
       = [Failed]
   \<and> \<not> chain_ok claimed_step Pending
         (statusHistory 1 example_world
            (snd (runCompetitiveAnalysis flaky_services 1 example_world)))"
proof -
  have hist: "statusHistory 1 example_world
      (snd (runCompetitiveAnalysis flaky_services 1 example_world)) = [Failed]"
    by code_simp
  have "\<not> chain_ok claimed_step Pending [Failed]"
    by (simp add: claimed_step_def)
  with example_world_row example_row_pending hist show ?thesis by simp
qed

text \<open>
  C8. In a run of the pipeline on a stored row whose status is \<open>pending\<close>, every write of
  the row sets \<open>completedAt\<close> when it makes the status \<open>completed\<close> and leaves it as it
  is otherwise, so a write of \<open>failed\<close> leaves it as it is. If \<open>completedAt\<close> is set in
  the starting row exactly when its status is \<open>completed\<close>, the same is true of every
  row written and of the row stored at the end. The row that \<open>analysis.create\<close> hands to
  \<open>createAnalysis\<close> is \<open>pending\<close> without \<open>completedAt\<close>, and in the run that
  \<open>analysis.create\<close> starts, \<open>completedAt\<close> is set exactly in the rows whose status is
  \<open>completed\<close>.
\<close>

theorem completedAt_iff_completed:
  "analyses w ident = Some row \<Longrightarrow> a_status row = Pending
   \<Longrightarrow> runCompetitiveAnalysis sv ident w = (r, w') \<Longrightarrow>
     chain_ok stamp_step row (rowsWritten ident w w')
   \<and> (completedAt_ok row
        \<longrightarrow> list_all completedAt_ok (rowsWritten ident w w')
            \<and> (\<exists>row'. analyses w' ident = Some row' \<and> completedAt_ok row'))
   \<and> (stamp_step x y \<and> a_status y = Failed \<longrightarrow> a_completedAt y = a_completedAt x)
   \<and> a_status (newAnalysis userId input) = Pending
   \<and> a_completedAt (newAnalysis userId input) = None
   \<and> (analysis_create sv u input w0 = (Inr (i, st), w0')
        \<longrightarrow> list_all completedAt_ok (rowsWritten i w0 w0')
            \<and> (\<exists>row'. analyses w0' i = Some row' \<and> completedAt_ok row'))"
proof -
  assume row: "analyses w ident = Some row" and pending: "a_status row = Pending"
    and run: "runCompetitiveAnalysis sv ident w = (r, w')"
  from run_tracked [OF row pending run] obtain s' where t: "tracked ident w row s' w'"
    by blast
  have stamps: "chain_ok stamp_step row (rowsWritten ident w w')"
    by (rule tracked_history(4) [OF t])
  have ok: "list_all completedAt_ok (rowsWritten ident w w')
      \<and> (\<exists>row'. analyses w' ident = Some row' \<and> completedAt_ok row')" if "completedAt_ok row"
    by (rule tracked_history(5) [OF t that])
  have failed: "stamp_step x y \<and> a_status y = Failed \<longrightarrow> a_completedAt y = a_completedAt x"
    by (simp add: stamp_step_def)
  have fresh: "a_status (newAnalysis userId input) = Pending"
    "a_completedAt (newAnalysis userId input) = None"
    by (simp_all add: newAnalysis_def)
  have created: "list_all completedAt_ok (rowsWritten i w0 w0')
      \<and> (\<exists>row'. analyses w0' i = Some row' \<and> completedAt_ok row')"
    if "analysis_create sv u input w0 = (Inr (i, st), w0')"
    using analysis_create_tracked [OF that] by blast
  from stamps ok failed fresh created show ?thesis by blast
qed

lemma example_completedAt:
  "map a_completedAt (rowsWritten 1 example_world
      (snd (runCompetitiveAnalysis example_services 1 example_world)))
     = [None, None, None, None, None, None, None, Some 1000]"
  by code_simp

theorem completedAt_iff_completed_witness:
  "analyses example_world 1 = Some example_row \<and> a_status example_row = Pending
   \<and> completedAt_ok example_row
   \<and> list_all completedAt_ok (rowsWritten 1 example_world
        (snd (runCompetitiveAnalysis example_services 1 example_world)))
   \<and> map a_completedAt (rowsWritten 1 example_world
        (snd (runCompetitiveAnalysis example_services 1 example_world)))
       = [None, None, None, None, None, None, None, Some 1000]"
proof -
  have ok: "completedAt_ok example_row"
    by (simp add: example_row_def newAnalysis_def completedAt_ok_def)
  note inst = completedAt_iff_completed [OF example_world_row example_row_pending,
      of example_services "fst (runCompetitiveAnalysis example_services 1 example_world)"
        "snd (runCompetitiveAnalysis example_services 1 example_world)"]
  from inst ok
  have "list_all completedAt_ok (rowsWritten 1 example_world
        (snd (runCompetitiveAnalysis example_services 1 example_world)))"
    by simp
  with example_world_row example_row_pending ok example_completedAt
  show ?thesis by (intro conjI)
qed

section \<open>Results about the handling of an exception\<close>











end
